theory Spec2Isabelle
  imports Main "HOL-Library.Char_ord" "HOL-Library.List_Lexorder" "HOL-Library.Multiset"
begin

section \<open>Data model\<close>

text \<open>
  The catalogue is the dictionary that \<^verbatim>\<open>json.load\<close> returns and \<^verbatim>\<open>json.dump\<close> writes
  (\<^verbatim>\<open>src/utils.py\<close>). A video is the dictionary built in
  \<^verbatim>\<open>fetch_all_videos_from_playlist\<close> (\<^verbatim>\<open>src/fetch_videos.py\<close>, lines 150 to 158): every
  value is a string, except \<^verbatim>\<open>recording_date\<close>, which is a string or \<^verbatim>\<open>None\<close>.
  Python compares \<^verbatim>\<open>str\<close> values code point by code point, a proper prefix being smaller:
  this is the lexicographic order on \<^typ>\<open>string\<close>.
\<close>

record video =
  video_id :: string
  title :: string
  description :: string
  upload_date :: string
  recording_date :: "string option"
  url :: string
  thumbnail :: string

record channel =
  channel_id :: string
  channel_name :: string
  channel_handle :: string
  uploads_playlist_id :: "string option"
  total_videos :: "nat option"
  last_updated :: "string option"

text \<open>
  The key \<^verbatim>\<open>videos\<close> may be missing from the dictionary: the matcher reads it with
  \<^verbatim>\<open>videos_db.get('videos', [])\<close>.
\<close>

record videos_db =
  channel_info :: channel
  videos :: "video list option"

definition db_videos :: "videos_db \<Rightarrow> video list" where
  "db_videos db = (case videos db of None \<Rightarrow> [] | Some vs \<Rightarrow> vs)"

text \<open>
  A \<^verbatim>\<open>datetime\<close> value of the standard library. The repository reads its \<^verbatim>\<open>year\<close>,
  \<^verbatim>\<open>month\<close> and \<^verbatim>\<open>day\<close> attributes only.
\<close>

record datetime =
  dt_year :: int
  dt_month :: int
  dt_day :: int

section \<open>Calendar matcher: \<^verbatim>\<open>get_videos_for_date\<close>\<close>

text \<open>
  \<^verbatim>\<open>datetime.fromisoformat\<close> belongs to the standard library, so it is a parameter
  \<open>fromisoformat\<close> of the model: on a \<^verbatim>\<open>str\<close> argument it returns a \<^verbatim>\<open>datetime\<close> or raises
  \<^verbatim>\<open>ValueError\<close>, which is the value \<open>None\<close> (the branch
  \<^verbatim>\<open>except ValueError: continue\<close>).

  The function's variables are kept in a frame, so that each statement is a state update:
  \<open>arg_videos_db\<close> is the caller's dictionary, \<open>matching_videos\<close> the local list.
\<close>

type_synonym isoparser = "string \<Rightarrow> datetime option"

record frame =
  arg_videos_db :: videos_db
  matching_videos :: "video list"

text \<open>The body of the \<^verbatim>\<open>for video in ...\<close> loop, lines 132 to 140.\<close>

definition scan_video :: "isoparser \<Rightarrow> int \<Rightarrow> int \<Rightarrow> video \<Rightarrow> frame \<Rightarrow> frame" where
  "scan_video fromisoformat month day v fr =
     (case recording_date v of
        None \<Rightarrow> fr
      | Some s \<Rightarrow>
          if s = [] then fr
          else (case fromisoformat s of
                  None \<Rightarrow> fr
                | Some date_obj \<Rightarrow>
                    if dt_month date_obj = month \<and> dt_day date_obj = day
                    then fr\<lparr>matching_videos := matching_videos fr @ [v]\<rparr>
                    else fr))"

text \<open>The sort key \<^verbatim>\<open>lambda v: v.get('recording_date', '')\<close>.\<close>

definition recording_key :: "video \<Rightarrow> string" where
  "recording_key v = (case recording_date v of None \<Rightarrow> [] | Some s \<Rightarrow> s)"

text \<open>
  \<^verbatim>\<open>list.sort\<close> is a stable sort, ascending in the key; \<^const>\<open>sort_key\<close> is the stable
  insertion sort, and a stable sort has one result only.
\<close>

definition get_videos_for_date_frame ::
    "isoparser \<Rightarrow> videos_db \<Rightarrow> int \<Rightarrow> int \<Rightarrow> frame" where
  "get_videos_for_date_frame fromisoformat db month day =
     (let fr0 = \<lparr>arg_videos_db = db, matching_videos = []\<rparr>;
          fr1 = fold (scan_video fromisoformat month day) (db_videos (arg_videos_db fr0)) fr0
      in fr1\<lparr>matching_videos := sort_key recording_key (matching_videos fr1)\<rparr>)"

definition get_videos_for_date :: "isoparser \<Rightarrow> videos_db \<Rightarrow> int \<Rightarrow> int \<Rightarrow> video list" where
  "get_videos_for_date fromisoformat db month day =
     matching_videos (get_videos_for_date_frame fromisoformat db month day)"

text \<open>
  What the specification calls a match: the record has a stored date, the stored string is
  a valid date, and its month and day are those of the query.
\<close>

definition recorded_on :: "isoparser \<Rightarrow> int \<Rightarrow> int \<Rightarrow> video \<Rightarrow> bool" where
  "recorded_on fromisoformat month day v =
     (case recording_date v of
        None \<Rightarrow> False
      | Some s \<Rightarrow> (case fromisoformat s of
                    None \<Rightarrow> False
                  | Some d \<Rightarrow> dt_month d = month \<and> dt_day d = day))"

text \<open>
  A date-only reading of ISO strings, \<^verbatim>\<open>YYYY-MM-DD\<close>, used to run the matcher on concrete
  catalogues. These are the strings that ingestion stores
  (\<^verbatim>\<open>strftime('%Y-%m-%d')\<close> and \<^verbatim>\<open>publishedAt[:10]\<close>); where \<open>fromisoformat_date\<close>
  returns a date, \<^verbatim>\<open>datetime.fromisoformat\<close> returns that date.
\<close>

definition digit_of :: "char \<Rightarrow> int option" where
  "digit_of c =
     (if CHR ''0'' \<le> c \<and> c \<le> CHR ''9'' then Some (int (of_char c) - 48) else None)"

fun digits_value :: "string \<Rightarrow> int \<Rightarrow> int option" where
  "digits_value [] acc = Some acc"
| "digits_value (c # cs) acc =
     (case digit_of c of None \<Rightarrow> None | Some d \<Rightarrow> digits_value cs (10 * acc + d))"

definition is_leap :: "int \<Rightarrow> bool" where
  "is_leap y = (y mod 4 = 0 \<and> (y mod 100 \<noteq> 0 \<or> y mod 400 = 0))"

definition days_in_month :: "int \<Rightarrow> int \<Rightarrow> int" where
  "days_in_month y m =
     (if m = 2 then (if is_leap y then 29 else 28)
      else if m = 4 \<or> m = 6 \<or> m = 9 \<or> m = 11 then 30 else 31)"

definition fromisoformat_date :: isoparser where
  "fromisoformat_date s =
     (if length s = 10 \<and> s ! 4 = CHR ''-'' \<and> s ! 7 = CHR ''-''
      then (case digits_value (take 4 s) 0 of
              None \<Rightarrow> None
            | Some y \<Rightarrow>
               (case digits_value (take 2 (drop 5 s)) 0 of
                  None \<Rightarrow> None
                | Some m \<Rightarrow>
                   (case digits_value (drop 8 s) 0 of
                      None \<Rightarrow> None
                    | Some d \<Rightarrow>
                        if 1 \<le> y \<and> 1 \<le> m \<and> m \<le> 12 \<and> 1 \<le> d \<and> d \<le> days_in_month y m
                        then Some \<lparr>dt_year = y, dt_month = m, dt_day = d\<rparr>
                        else None)))
      else None)"

text \<open>The year of a stored date, as \<^verbatim>\<open>format_video_list_for_reddit\<close> reads it.\<close>

definition recording_year :: "isoparser \<Rightarrow> video \<Rightarrow> int option" where
  "recording_year fromisoformat v =
     (case recording_date v of
        None \<Rightarrow> None
      | Some s \<Rightarrow> map_option dt_year (fromisoformat s))"

text \<open>
  The test that the loop body makes on a record: the stored string is true (not empty),
  it parses, and month and day are those of the query.
\<close>

definition kept :: "isoparser \<Rightarrow> int \<Rightarrow> int \<Rightarrow> video \<Rightarrow> bool" where
  "kept fromisoformat month day v =
     (recorded_on fromisoformat month day v \<and> recording_date v \<noteq> Some [])"

text \<open>
  The year written in the first four characters of a stored date, and the statement that
  the parser reads the year of a record there (as it does for \<^verbatim>\<open>YYYY-MM-DD\<close>).
\<close>

definition year_prefix :: "string \<Rightarrow> int option" where
  "year_prefix s = (if 4 \<le> length s then digits_value (take 4 s) 0 else None)"

definition year_leads :: "isoparser \<Rightarrow> video \<Rightarrow> bool" where
  "year_leads fromisoformat v =
     (case recording_date v of
        None \<Rightarrow> True
      | Some s \<Rightarrow> (case fromisoformat s of
                    None \<Rightarrow> True
                  | Some d \<Rightarrow> year_prefix s = Some (dt_year d)))"

text \<open>Sample records for concrete runs.\<close>

definition mk_video :: "string \<Rightarrow> string option \<Rightarrow> video" where
  "mk_video vid rd =
     \<lparr>video_id = vid, title = ''Day trip'', description = [], upload_date = ''2023-05-01'',
      recording_date = rd, url = ''https://www.youtube.com/watch?v='' @ vid, thumbnail = []\<rparr>"

definition placeholder_channel :: channel where
  "placeholder_channel =
     \<lparr>channel_id = [], channel_name = ''Adam The Woo'', channel_handle = ''@TheDailyWoo'',
      uploads_playlist_id = None, total_videos = None, last_updated = None\<rparr>"

definition sample_db :: videos_db where
  "sample_db =
     \<lparr>channel_info = placeholder_channel,
      videos = Some [mk_video ''a'' (Some ''2022-01-04''),
                     mk_video ''b'' (Some ''2021-02-28''),
                     mk_video ''c'' None,
                     mk_video ''d'' (Some ''2020-01-04''),
                     mk_video ''e'' (Some ''Jan 4, 2019''),
                     mk_video ''f'' (Some ''2020-02-29''),
                     mk_video ''g'' (Some ''2021-03-01''),
                     mk_video ''h'' (Some ''2022-01-04''),
                     mk_video ''i'' (Some [])]\<rparr>"

text \<open>
  \<^verbatim>\<open>datetime.fromisoformat\<close> of Python 3.11 and later also reads ISO week dates:
  \<^verbatim>\<open>"2020-W01-1"\<close>, the Monday of week 1 of 2020, is 30 December 2019. The parser below
  adds this answer to the date-only reading, and the catalogue holds that record before one
  dated \<^verbatim>\<open>"2020-12-30"\<close>.
\<close>

definition fromisoformat_weeks :: isoparser where
  "fromisoformat_weeks s =
     (if s = ''2020-W01-1'' then Some \<lparr>dt_year = 2019, dt_month = 12, dt_day = 30\<rparr>
      else fromisoformat_date s)"

definition week_db :: videos_db where
  "week_db =
     \<lparr>channel_info = placeholder_channel,
      videos = Some [mk_video ''w'' (Some ''2020-W01-1''),
                     mk_video ''x'' (Some ''2020-12-30'')]\<rparr>"

section \<open>Exceptions\<close>

text \<open>
  The exception classes that the code names or that its library calls raise.
  \<^verbatim>\<open>json.JSONDecodeError\<close>, \<^verbatim>\<open>UnicodeError\<close> and \<^verbatim>\<open>dateutil\<close>'s \<^verbatim>\<open>ParserError\<close> are
  subclasses of \<^verbatim>\<open>ValueError\<close>;
  \<^verbatim>\<open>re.error\<close>, \<^verbatim>\<open>TypeError\<close>, \<^verbatim>\<open>OSError\<close> and \<^verbatim>\<open>HttpError\<close> are not.
  \<open>Exception msg\<close> is the plain \<^verbatim>\<open>Exception\<close> that the code raises itself.
\<close>

datatype exn =
    ValueError | JSONDecodeError | UnicodeError
  | TypeError | ReError | OSError | HttpError | ParserError
  | Exception string

text \<open>What \<^verbatim>\<open>except ValueError\<close> catches.\<close>

fun is_ValueError :: "exn \<Rightarrow> bool" where
  "is_ValueError ValueError = True"
| "is_ValueError JSONDecodeError = True"
| "is_ValueError UnicodeError = True"
| "is_ValueError ParserError = True"
| "is_ValueError _ = False"

section \<open>Date extractor: \<^verbatim>\<open>parse_date_from_title\<close>\<close>

text \<open>
  The library calls are parameters, each returning its value (\<open>Inr\<close>) or the exception it
  raises (\<open>Inl\<close>): \<^verbatim>\<open>datetime.strptime(title, pattern)\<close>,
  \<^verbatim>\<open>dateutil.parser.parse(title, fuzzy=True)\<close> and \<^verbatim>\<open>date_obj.strftime(format)\<close>.
\<close>

record pylib =
  strptime :: "string \<Rightarrow> string \<Rightarrow> exn + datetime"
  parser_parse_fuzzy :: "string \<Rightarrow> exn + datetime"
  strftime :: "datetime \<Rightarrow> string \<Rightarrow> string"

text \<open>
  The configuration dictionary, read with
  \<^verbatim>\<open>config.get('date_parsing', {}).get('title_patterns', [])\<close> and
  \<^verbatim>\<open>config.get('date_parsing', {}).get('use_upload_date_fallback', True)\<close>.
  No other key of it is read by the extractor or by ingestion.
\<close>

record date_parsing_section =
  title_patterns :: "string list option"
  use_upload_date_fallback :: "bool option"

record config =
  date_parsing :: "date_parsing_section option"

definition config_title_patterns :: "config \<Rightarrow> string list" where
  "config_title_patterns cfg =
     (case date_parsing cfg of
        None \<Rightarrow> []
      | Some dp \<Rightarrow> (case title_patterns dp of None \<Rightarrow> [] | Some ps \<Rightarrow> ps))"

definition config_use_upload_date_fallback :: "config \<Rightarrow> bool" where
  "config_use_upload_date_fallback cfg =
     (case date_parsing cfg of
        None \<Rightarrow> True
      | Some dp \<Rightarrow> (case use_upload_date_fallback dp of None \<Rightarrow> True | Some b \<Rightarrow> b))"

text \<open>
  The loop of lines 100 to 106: \<^verbatim>\<open>except ValueError: continue\<close> goes on with the next
  pattern; any other exception leaves the function.
\<close>

fun try_patterns :: "pylib \<Rightarrow> string \<Rightarrow> string list \<Rightarrow> exn + datetime option" where
  "try_patterns L title_str [] = Inr None"
| "try_patterns L title_str (pattern # rest) =
     (case strptime L title_str pattern of
        Inr date_obj \<Rightarrow> Inr (Some date_obj)
      | Inl e \<Rightarrow> if is_ValueError e then try_patterns L title_str rest else Inl e)"

text \<open>Lines 108 to 115: the fallback is under a bare \<^verbatim>\<open>except:\<close>, which catches everything.\<close>

definition parse_date_from_title :: "pylib \<Rightarrow> string \<Rightarrow> config \<Rightarrow> exn + datetime option" where
  "parse_date_from_title L title_str cfg =
     (case try_patterns L title_str (config_title_patterns cfg) of
        Inl e \<Rightarrow> Inl e
      | Inr (Some date_obj) \<Rightarrow> Inr (Some date_obj)
      | Inr None \<Rightarrow>
          (case parser_parse_fuzzy L title_str of
             Inr date_obj \<Rightarrow> Inr (Some date_obj)
           | Inl e \<Rightarrow> Inr None))"

subsection \<open>The extractor as the specification words it\<close>

text \<open>
  \<open>extract(title, patterns, fuzzy_enabled)\<close>: a strategy is a function from the title to a
  date or nothing; the strict patterns are tried in order and the first that parses wins;
  if none does and fuzzy extraction is enabled, the permissive scan decides; otherwise the
  result is absent.
\<close>

fun first_strict :: "(string \<Rightarrow> datetime option) \<Rightarrow> string list \<Rightarrow> datetime option" where
  "first_strict strict [] = None"
| "first_strict strict (p # ps) =
     (case strict p of Some d \<Rightarrow> Some d | None \<Rightarrow> first_strict strict ps)"

definition extract_spec ::
    "(string \<Rightarrow> string \<Rightarrow> datetime option) \<Rightarrow> (string \<Rightarrow> datetime option) \<Rightarrow>
     string \<Rightarrow> string list \<Rightarrow> bool \<Rightarrow> datetime option" where
  "extract_spec strict fuzzy title_str patterns fuzzy_enabled =
     (case first_strict (strict title_str) patterns of
        Some d \<Rightarrow> Some d
      | None \<Rightarrow> if fuzzy_enabled then fuzzy title_str else None)"

text \<open>A library call seen as a strategy: a failure of any kind is "did not match".\<close>

definition strategy :: "exn + datetime \<Rightarrow> datetime option" where
  "strategy r = (case r of Inr d \<Rightarrow> Some d | Inl e \<Rightarrow> None)"

definition strict_of :: "pylib \<Rightarrow> string \<Rightarrow> string \<Rightarrow> datetime option" where
  "strict_of L title_str pattern = strategy (strptime L title_str pattern)"

definition fuzzy_of :: "pylib \<Rightarrow> string \<Rightarrow> datetime option" where
  "fuzzy_of L title_str = strategy (parser_parse_fuzzy L title_str)"

text \<open>The patterns that the loop reaches: those before the first one that parses.\<close>

definition reached :: "pylib \<Rightarrow> string \<Rightarrow> string list \<Rightarrow> string list" where
  "reached L title_str patterns =
     takeWhile (\<lambda>p. strict_of L title_str p = None) patterns"

subsection \<open>Recorded library answers\<close>

text \<open>
  Answers of the library on the inputs of the concrete runs below:
  \<^verbatim>\<open>strptime("03/14/2019", "%m/%d/%Y")\<close> is 14 March 2019;
  \<^verbatim>\<open>strptime\<close> with the format \<^verbatim>\<open>"%Y %Y"\<close> raises \<^verbatim>\<open>re.error\<close> (redefinition of group
  name), whatever the title; the other pairs used below do not match (\<^verbatim>\<open>ValueError\<close>).
  The fuzzy parser finds 14 March 2019 in \<^verbatim>\<open>"Road Trip - 03/14/2019"\<close> and no date in
  \<^verbatim>\<open>"Just a fun day!"\<close>.
\<close>

definition pi_day_2019 :: datetime where
  "pi_day_2019 = \<lparr>dt_year = 2019, dt_month = 3, dt_day = 14\<rparr>"

definition sample_strptime :: "string \<Rightarrow> string \<Rightarrow> exn + datetime" where
  "sample_strptime title_str pattern =
     (if pattern = ''%Y %Y'' then Inl ReError
      else if title_str = ''03/14/2019'' \<and> pattern = ''%m/%d/%Y'' then Inr pi_day_2019
      else Inl ValueError)"

definition sample_parse_fuzzy :: "string \<Rightarrow> exn + datetime" where
  "sample_parse_fuzzy title_str =
     (if title_str = ''Road Trip - 03/14/2019'' \<or> title_str = ''03/14/2019''
      then Inr pi_day_2019 else Inl ParserError)"

definition sample_strftime :: "datetime \<Rightarrow> string \<Rightarrow> string" where
  "sample_strftime d fmt =
     (if d = pi_day_2019 \<and> fmt = ''%Y-%m-%d'' then ''2019-03-14'' else [])"

definition sample_lib :: pylib where
  "sample_lib =
     \<lparr>strptime = sample_strptime, parser_parse_fuzzy = sample_parse_fuzzy,
      strftime = sample_strftime\<rparr>"

definition config_of :: "string list \<Rightarrow> bool \<Rightarrow> config" where
  "config_of patterns fallback =
     \<lparr>date_parsing = Some \<lparr>title_patterns = Some patterns,
                            use_upload_date_fallback = Some fallback\<rparr>\<rparr>"

section \<open>Ingestion: \<^verbatim>\<open>fetch_all_videos_from_playlist\<close>\<close>

text \<open>
  A raw entry is \<^verbatim>\<open>item['snippet']\<close> of a playlist item: \<^verbatim>\<open>title\<close>,
  \<^verbatim>\<open>resourceId.videoId\<close>, \<^verbatim>\<open>description\<close> (read with a default), \<^verbatim>\<open>publishedAt\<close> and
  \<^verbatim>\<open>thumbnails.high.url\<close> (read with defaults).
\<close>

record snippet =
  snippet_title :: string
  snippet_videoId :: string
  snippet_description :: "string option"
  snippet_publishedAt :: string
  snippet_thumbnail_high_url :: "string option"

definition is_sentinel_title :: "string \<Rightarrow> bool" where
  "is_sentinel_title t = (t = ''Private video'' \<or> t = ''Deleted video'')"

text \<open>
  Lines 141 to 148. A \<^verbatim>\<open>datetime\<close> object is always true, so \<^verbatim>\<open>if date_obj:\<close> asks
  whether the extractor returned a date.
\<close>

definition choose_recording_date ::
    "pylib \<Rightarrow> config \<Rightarrow> datetime option \<Rightarrow> string \<Rightarrow> string option" where
  "choose_recording_date L cfg date_obj upload =
     (case date_obj of
        Some d \<Rightarrow> Some (strftime L d ''%Y-%m-%d'')
      | None \<Rightarrow> if config_use_upload_date_fallback cfg then Some upload else None)"

text \<open>
  One turn of the loop over the items of a page, lines 129 to 160: \<open>Inr None\<close> is the
  \<^verbatim>\<open>continue\<close> of a skipped entry, \<open>Inl e\<close> an exception of the extractor, which nothing
  in the loop catches.
\<close>

definition ingest_item :: "pylib \<Rightarrow> config \<Rightarrow> snippet \<Rightarrow> exn + video option" where
  "ingest_item L cfg sn =
     (if snippet_title sn = ''Private video'' \<or> snippet_title sn = ''Deleted video''
      then Inr None
      else
        (let upload = take 10 (snippet_publishedAt sn) in
         case parse_date_from_title L (snippet_title sn) cfg of
           Inl e \<Rightarrow> Inl e
         | Inr date_obj \<Rightarrow>
             Inr (Some
               \<lparr>video_id = snippet_videoId sn,
                title = snippet_title sn,
                description = (case snippet_description sn of None \<Rightarrow> [] | Some t \<Rightarrow> t),
                upload_date = upload,
                recording_date = choose_recording_date L cfg date_obj upload,
                url = ''https://www.youtube.com/watch?v='' @ snippet_videoId sn,
                thumbnail =
                  (case snippet_thumbnail_high_url sn of None \<Rightarrow> [] | Some u \<Rightarrow> u)\<rparr>)))"

text \<open>
  The loop over one page. It returns the list \<^verbatim>\<open>videos\<close> as it stands when the loop ends
  or is left, and the exception that left it, if any.
\<close>

fun ingest_items ::
    "pylib \<Rightarrow> config \<Rightarrow> snippet list \<Rightarrow> video list \<Rightarrow> video list \<times> exn option" where
  "ingest_items L cfg [] vids = (vids, None)"
| "ingest_items L cfg (sn # rest) vids =
     (case ingest_item L cfg sn of
        Inl e \<Rightarrow> (vids, Some e)
      | Inr None \<Rightarrow> ingest_items L cfg rest vids
      | Inr (Some v) \<Rightarrow> ingest_items L cfg rest (vids @ [v]))"

text \<open>
  The pages. \<^verbatim>\<open>request.execute()\<close> is the parameter \<open>api\<close>, from the page token to the
  response or the exception raised. The \<^verbatim>\<open>while True\<close> loop ends on a response without a
  next page token (\<^verbatim>\<open>None\<close> or empty) and on \<^verbatim>\<open>HttpError\<close>, which is logged; any other
  exception leaves the function. A source that always names a next page keeps the loop
  running: the model counts the requests down from \<open>fuel\<close> and returns \<open>None\<close> when they
  are used up.
\<close>

record response =
  resp_items :: "snippet list option"
  nextPageToken :: "string option"

type_synonym playlist_api = "string option \<Rightarrow> exn + response"

definition items_of :: "response \<Rightarrow> snippet list" where
  "items_of r = (case resp_items r of None \<Rightarrow> [] | Some xs \<Rightarrow> xs)"

fun fetch_pages ::
    "nat \<Rightarrow> pylib \<Rightarrow> playlist_api \<Rightarrow> config \<Rightarrow> string option \<Rightarrow> video list \<Rightarrow>
     (exn + video list) option" where
  "fetch_pages 0 L api cfg next_page_token vids = None"
| "fetch_pages (Suc fuel) L api cfg next_page_token vids =
     (case api next_page_token of
        Inl e \<Rightarrow> if e = HttpError then Some (Inr vids) else Some (Inl e)
      | Inr resp \<Rightarrow>
          (case ingest_items L cfg (items_of resp) vids of
             (vids', Some e) \<Rightarrow> if e = HttpError then Some (Inr vids') else Some (Inl e)
           | (vids', None) \<Rightarrow>
               (case nextPageToken resp of
                  None \<Rightarrow> Some (Inr vids')
                | Some t \<Rightarrow>
                    if t = [] then Some (Inr vids')
                    else fetch_pages fuel L api cfg (Some t) vids')))"

definition fetch_all_videos_from_playlist ::
    "nat \<Rightarrow> pylib \<Rightarrow> playlist_api \<Rightarrow> config \<Rightarrow> (exn + video list) option" where
  "fetch_all_videos_from_playlist fuel L api cfg = fetch_pages fuel L api cfg None []"

text \<open>
  The raw entries of a run, in the order the source serves them: the items of every page
  requested, up to the page that ends the loop.
\<close>

fun served :: "nat \<Rightarrow> playlist_api \<Rightarrow> string option \<Rightarrow> snippet list" where
  "served 0 api next_page_token = []"
| "served (Suc fuel) api next_page_token =
     (case api next_page_token of
        Inl e \<Rightarrow> []
      | Inr resp \<Rightarrow>
          items_of resp @
          (case nextPageToken resp of
             None \<Rightarrow> []
           | Some t \<Rightarrow> if t = [] then [] else served fuel api (Some t)))"

text \<open>What the specification says of one retained entry.\<close>

definition dated_record :: "pylib \<Rightarrow> config \<Rightarrow> snippet \<Rightarrow> video" where
  "dated_record L cfg sn =
     \<lparr>video_id = snippet_videoId sn,
      title = snippet_title sn,
      description = (case snippet_description sn of None \<Rightarrow> [] | Some t \<Rightarrow> t),
      upload_date = take 10 (snippet_publishedAt sn),
      recording_date =
        (case extract_spec (strict_of L) (fuzzy_of L) (snippet_title sn)
                (config_title_patterns cfg) True of
           Some d \<Rightarrow> Some (strftime L d ''%Y-%m-%d'')
         | None \<Rightarrow>
             if config_use_upload_date_fallback cfg
             then Some (take 10 (snippet_publishedAt sn)) else None),
      url = ''https://www.youtube.com/watch?v='' @ snippet_videoId sn,
      thumbnail = (case snippet_thumbnail_high_url sn of None \<Rightarrow> [] | Some u \<Rightarrow> u)\<rparr>"

text \<open>That no strict attempt on the title of an entry raises anything but \<^verbatim>\<open>ValueError\<close>.\<close>

definition strict_failures_are_ValueError :: "pylib \<Rightarrow> string \<Rightarrow> string list \<Rightarrow> bool" where
  "strict_failures_are_ValueError L title_str patterns =
     list_all (\<lambda>p. case strptime L title_str p of Inl e \<Rightarrow> is_ValueError e | Inr d \<Rightarrow> True)
       (reached L title_str patterns)"

text \<open>A sample source of two pages.\<close>

definition mk_snippet :: "string \<Rightarrow> string \<Rightarrow> string \<Rightarrow> snippet" where
  "mk_snippet vid t published =
     \<lparr>snippet_title = t, snippet_videoId = vid, snippet_description = None,
      snippet_publishedAt = published, snippet_thumbnail_high_url = None\<rparr>"

definition sample_page1 :: "snippet list" where
  "sample_page1 =
     [mk_snippet ''v1'' ''Road Trip - 03/14/2019'' ''2019-03-20T15:00:00Z'',
      mk_snippet ''v2'' ''Private video'' ''2019-04-01T15:00:00Z'']"

definition sample_page2 :: "snippet list" where
  "sample_page2 =
     [mk_snippet ''v3'' ''Just a fun day!'' ''2020-07-04T12:30:00Z'',
      mk_snippet ''v4'' ''Deleted video'' ''2020-08-01T10:00:00Z'']"

definition sample_api :: playlist_api where
  "sample_api next_page_token =
     (case next_page_token of
        None \<Rightarrow> Inr \<lparr>resp_items = Some sample_page1, nextPageToken = Some ''p2''\<rparr>
      | Some t \<Rightarrow>
          if t = ''p2'' then Inr \<lparr>resp_items = Some sample_page2, nextPageToken = None\<rparr>
          else Inl HttpError)"

text \<open>
  That the source stops naming a next page within \<open>fuel\<close> requests, and that a request
  fails with \<^verbatim>\<open>HttpError\<close> only.
\<close>

fun ends_within :: "nat \<Rightarrow> playlist_api \<Rightarrow> string option \<Rightarrow> bool" where
  "ends_within 0 api next_page_token = False"
| "ends_within (Suc fuel) api next_page_token =
     (case api next_page_token of
        Inl e \<Rightarrow> True
      | Inr resp \<Rightarrow>
          (case nextPageToken resp of
             None \<Rightarrow> True
           | Some t \<Rightarrow> t = [] \<or> ends_within fuel api (Some t)))"

fun fails_with_HttpError_only :: "nat \<Rightarrow> playlist_api \<Rightarrow> string option \<Rightarrow> bool" where
  "fails_with_HttpError_only 0 api next_page_token = True"
| "fails_with_HttpError_only (Suc fuel) api next_page_token =
     (case api next_page_token of
        Inl e \<Rightarrow> e = HttpError
      | Inr resp \<Rightarrow>
          (case nextPageToken resp of
             None \<Rightarrow> True
           | Some t \<Rightarrow> t = [] \<or> fails_with_HttpError_only fuel api (Some t)))"

section \<open>Catalogue store: \<^verbatim>\<open>load_videos_db\<close>, \<^verbatim>\<open>save_videos_db\<close>, \<^verbatim>\<open>create_backup\<close>\<close>

text \<open>
  The file system maps a path to the content of the regular file there, if there is one;
  \<^verbatim>\<open>os.path.exists\<close> asks whether the path is mapped. The type \<open>'c\<close> of file contents is
  left open. \<^verbatim>\<open>json.load\<close> and \<^verbatim>\<open>json.dump\<close> are parameters:
  \<open>json_load\<close> returns the dictionary read from a content or the exception raised, and
  \<open>json_dump\<close> tells what \<^verbatim>\<open>open(db_path, 'w')\<close> followed by \<^verbatim>\<open>json.dump\<close> leaves in the
  file.
\<close>

type_synonym 'c fs = "string \<Rightarrow> 'c option"

datatype 'c written =
    Written 'c
  | Broken 'c exn
  | Unopened exn

record 'c jsonlib =
  json_load :: "'c \<Rightarrow> exn + videos_db"
  json_dump :: "videos_db \<Rightarrow> 'c written"

definition db_path :: string where
  "db_path = ''data/videos.json''"

text \<open>Lines 52 to 60: the structure returned when there is no database yet.\<close>

definition empty_db :: videos_db where
  "empty_db =
     \<lparr>channel_info =
        \<lparr>channel_id = [], channel_name = ''Adam The Woo'', channel_handle = ''@TheDailyWoo'',
         uploads_playlist_id = None, total_videos = None, last_updated = None\<rparr>,
      videos = Some []\<rparr>"

text \<open>
  \<^verbatim>\<open>load_videos_db\<close>: \<^verbatim>\<open>json.JSONDecodeError\<close> is raised again as a plain \<^verbatim>\<open>Exception\<close>;
  any other exception of the read passes through.
\<close>

definition load_videos_db :: "'c jsonlib \<Rightarrow> 'c fs \<Rightarrow> exn + videos_db" where
  "load_videos_db J files =
     (case files db_path of
        None \<Rightarrow> Inr empty_db
      | Some content \<Rightarrow>
          (case json_load J content of
             Inr data \<Rightarrow> Inr data
           | Inl e \<Rightarrow>
               if e = JSONDecodeError then Inl (Exception ''Error parsing videos database'')
               else Inl e))"

text \<open>
  \<^verbatim>\<open>save_videos_db\<close>: \<open>now\<close> is \<^verbatim>\<open>datetime.now().isoformat()\<close>. The function changes the
  caller's dictionary (\<open>data_after\<close>) and the file system (\<open>fs_after\<close>); \<open>raised\<close> is the
  exception it ends with, if any. \<^verbatim>\<open>os.makedirs('data', exist_ok=True)\<close> changes no file.
\<close>

record 'c saved =
  raised :: "exn option"
  data_after :: videos_db
  fs_after :: "'c fs"

definition save_videos_db :: "'c jsonlib \<Rightarrow> string \<Rightarrow> 'c fs \<Rightarrow> videos_db \<Rightarrow> 'c saved" where
  "save_videos_db J now files data =
     (let data' = data\<lparr>channel_info := (channel_info data)\<lparr>last_updated := Some now\<rparr>\<rparr>
      in case json_dump J data' of
           Written content \<Rightarrow>
             \<lparr>raised = None, data_after = data', fs_after = files(db_path \<mapsto> content)\<rparr>
         | Broken content e \<Rightarrow>
             \<lparr>raised = Some (Exception ''Error saving videos database''), data_after = data',
              fs_after = files(db_path \<mapsto> content)\<rparr>
         | Unopened e \<Rightarrow>
             \<lparr>raised = Some (Exception ''Error saving videos database''), data_after = data',
              fs_after = files\<rparr>)"

text \<open>\<^verbatim>\<open>create_backup\<close>: \<^verbatim>\<open>shutil.copy2\<close> to the path with the suffix \<^verbatim>\<open>.backup\<close>.\<close>

definition backup_path :: "string \<Rightarrow> string" where
  "backup_path file_path = file_path @ ''.backup''"

definition create_backup :: "'c fs \<Rightarrow> string \<Rightarrow> 'c fs" where
  "create_backup files file_path =
     (case files file_path of
        None \<Rightarrow> files
      | Some content \<Rightarrow> files(backup_path file_path \<mapsto> content))"

text \<open>
  The end of \<^verbatim>\<open>main\<close> in \<^verbatim>\<open>fetch_videos.py\<close>, lines 210 to 231, the only caller of
  \<^verbatim>\<open>save_videos_db\<close>: back up the database if there is one, then save the new one.
\<close>

definition main_backup_and_save ::
    "'c jsonlib \<Rightarrow> string \<Rightarrow> 'c fs \<Rightarrow> videos_db \<Rightarrow> 'c saved" where
  "main_backup_and_save J now files data =
     (let files1 = (if files db_path \<noteq> None then create_backup files db_path else files)
      in save_videos_db J now files1 data)"

text \<open>
  A sample codec for concrete runs: a file content is a dictionary written in full, or
  text that is no JSON.
\<close>

datatype sample_content = Json videos_db | Garbage

definition sample_json :: "sample_content jsonlib" where
  "sample_json =
     \<lparr>json_load = (\<lambda>c. case c of Json d \<Rightarrow> Inr d | Garbage \<Rightarrow> Inl JSONDecodeError),
      json_dump = (\<lambda>d. Written (Json d))\<rparr>"

definition no_files :: "sample_content fs" where
  "no_files = (\<lambda>p. None)"

definition stamped :: "string \<Rightarrow> videos_db \<Rightarrow> videos_db" where
  "stamped now data = data\<lparr>channel_info := (channel_info data)\<lparr>last_updated := Some now\<rparr>\<rparr>"

section \<open>JSON text: what \<^verbatim>\<open>json.dump\<close> writes and \<^verbatim>\<open>json.load\<close> reads\<close>

text \<open>
  To follow a catalogue through the file, the two calls of the \<^verbatim>\<open>json\<close> module are
  modelled on text:
  \<^verbatim>\<open>json.dump(data, f, indent=2, ensure_ascii=False)\<close> on a file opened with
  \<^verbatim>\<open>encoding='utf-8'\<close>, and \<^verbatim>\<open>json.load(f)\<close>.

  A \<^typ>\<open>string\<close> stands for a Python \<^verbatim>\<open>str\<close> by the bytes of its UTF-8 form, where a lone
  surrogate has the three bytes that the encoding scheme gives to its code point (\<^verbatim>\<open>ED\<close>,
  then \<^verbatim>\<open>A0\<close> to \<^verbatim>\<open>BF\<close>, then one more); the order of such byte strings is the order of
  the code points. The content of a file is the text in it.

  A JSON value as the module has it: \<^verbatim>\<open>None\<close>, a \<^verbatim>\<open>bool\<close>, an \<^verbatim>\<open>int\<close>, a \<^verbatim>\<open>float\<close>
  (kept as the text of its literal, which no catalogue contains), a \<^verbatim>\<open>str\<close>, a \<^verbatim>\<open>list\<close>,
  and a \<^verbatim>\<open>dict\<close> with keys in insertion order.
\<close>

datatype json =
    JNull | JBool bool | JInt int | JFloat string | JString string
  | JArray "json list" | JObject "(string \<times> json) list"

subsection \<open>The encoder\<close>

text \<open>
  String literals (\<^verbatim>\<open>encode_basestring\<close>, since \<^verbatim>\<open>ensure_ascii\<close> is off): the quote, the
  backslash and the control characters are escaped, every other character is written as it
  is.
\<close>

definition hex_digit :: "nat \<Rightarrow> char" where
  "hex_digit k = (if k < 10 then char_of (48 + k) else char_of (87 + k))"

definition escape_char :: "char \<Rightarrow> string" where
  "escape_char c =
     (if c = CHR 0x22 then [CHR 0x5C, CHR 0x22]
      else if c = CHR 0x5C then [CHR 0x5C, CHR 0x5C]
      else if c = CHR 0x08 then [CHR 0x5C, CHR ''b'']
      else if c = CHR 0x0C then [CHR 0x5C, CHR ''f'']
      else if c = CHR 0x0A then [CHR 0x5C, CHR ''n'']
      else if c = CHR 0x0D then [CHR 0x5C, CHR ''r'']
      else if c = CHR 0x09 then [CHR 0x5C, CHR ''t'']
      else if of_char c < (32::nat)
        then [CHR 0x5C, CHR ''u'', CHR ''0'', CHR ''0'',
              hex_digit (of_char c div 16), hex_digit (of_char c mod 16)]
      else [c])"

definition encode_basestring :: "string \<Rightarrow> string" where
  "encode_basestring s = CHR 0x22 # concat (map escape_char s) @ [CHR 0x22]"

text \<open>Integers in decimal (\<^verbatim>\<open>int.__repr__\<close>).\<close>

fun dec :: "nat \<Rightarrow> string" where
  "dec n = (if n < 10 then [char_of (48 + n)] else dec (n div 10) @ [char_of (48 + n mod 10)])"

declare dec.simps [simp del]

definition int_repr :: "int \<Rightarrow> string" where
  "int_repr i = (if i < 0 then CHR ''-'' # dec (nat (- i)) else dec (nat i))"

text \<open>
  \<^verbatim>\<open>json.dump\<close> writes the chunks that \<^verbatim>\<open>iterencode\<close> yields, one \<^verbatim>\<open>f.write\<close> each. With an
  indent of two, a list or dictionary that is not empty has one item per line; in a list,
  the text before an item is yielded together with the item when the item is no list or
  dictionary (\<open>glue\<close>).
\<close>

definition newline_indent :: "nat \<Rightarrow> string" where
  "newline_indent lvl = CHR 0x0A # replicate (2 * lvl) CHR '' ''"

definition glue :: "string \<Rightarrow> json \<Rightarrow> string list \<Rightarrow> string list" where
  "glue buf x chunks =
     (case x of
        JArray xs \<Rightarrow> buf # chunks
      | JObject kvs \<Rightarrow> buf # chunks
      | _ \<Rightarrow> [buf @ concat chunks])"

fun iterencode :: "nat \<Rightarrow> json \<Rightarrow> string list"
  and iterencode_rest :: "nat \<Rightarrow> json list \<Rightarrow> string list"
  and iterencode_pairs :: "nat \<Rightarrow> (string \<times> json) list \<Rightarrow> string list" where
  "iterencode lvl JNull = [''null'']"
| "iterencode lvl (JBool b) = [if b then ''true'' else ''false'']"
| "iterencode lvl (JInt i) = [int_repr i]"
| "iterencode lvl (JFloat r) = [r]"
| "iterencode lvl (JString s) = [encode_basestring s]"
| "iterencode lvl (JArray []) = [''[]'']"
| "iterencode lvl (JArray (x # xs)) =
     glue (''['' @ newline_indent (Suc lvl)) x (iterencode (Suc lvl) x)
     @ iterencode_rest (Suc lvl) xs @ [newline_indent lvl, '']'']"
| "iterencode lvl (JObject []) = [''{}'']"
| "iterencode lvl (JObject (kv # kvs)) =
     [''{'', newline_indent (Suc lvl), encode_basestring (fst kv), '': '']
     @ iterencode (Suc lvl) (snd kv)
     @ iterencode_pairs (Suc lvl) kvs @ [newline_indent lvl, ''}'']"
| "iterencode_rest lvl [] = []"
| "iterencode_rest lvl (x # xs) =
     glue ('','' @ newline_indent lvl) x (iterencode lvl x) @ iterencode_rest lvl xs"
| "iterencode_pairs lvl [] = []"
| "iterencode_pairs lvl (kv # kvs) =
     [CHR '','' # newline_indent lvl, encode_basestring (fst kv), '': '']
     @ iterencode lvl (snd kv) @ iterencode_pairs lvl kvs"

definition json_text :: "json \<Rightarrow> string" where
  "json_text j = concat (iterencode 0 j)"

text \<open>
  Writing to the file. The UTF-8 encoder of the file refuses a chunk that holds a
  surrogate (\<^verbatim>\<open>UnicodeEncodeError\<close>); the chunks written before it stay in the file.
\<close>

fun has_surrogate :: "string \<Rightarrow> bool" where
  "has_surrogate (c # d # cs) =
     ((c = CHR 0xED \<and> CHR 0xA0 \<le> d \<and> d \<le> CHR 0xBF) \<or> has_surrogate (d # cs))"
| "has_surrogate cs = False"

definition write_chunks :: "string list \<Rightarrow> string written" where
  "write_chunks chunks =
     (if list_all (\<lambda>c. \<not> has_surrogate c) chunks then Written (concat chunks)
      else Broken (concat (takeWhile (\<lambda>c. \<not> has_surrogate c) chunks)) UnicodeError)"

subsection \<open>The decoder\<close>

definition is_ws :: "char \<Rightarrow> bool" where
  "is_ws c = (c = CHR '' '' \<or> c = CHR 0x09 \<or> c = CHR 0x0A \<or> c = CHR 0x0D)"

definition skip_ws :: "string \<Rightarrow> string" where
  "skip_ws s = dropWhile is_ws s"

text \<open>
  String literals (\<^verbatim>\<open>scanstring\<close>, strict): the text after the opening quote, up to the
  closing one. \<open>scan_escape\<close> reads what follows a backslash and tells how many characters
  it took; an escape of four hex digits gives the bytes of the code point, a pair of
  surrogate escapes the bytes of the character they encode.
\<close>

definition hex_value :: "char \<Rightarrow> nat option" where
  "hex_value c =
     (if CHR ''0'' \<le> c \<and> c \<le> CHR ''9'' then Some (of_char c - 48)
      else if CHR ''a'' \<le> c \<and> c \<le> CHR ''f'' then Some (of_char c - 87)
      else if CHR ''A'' \<le> c \<and> c \<le> CHR ''F'' then Some (of_char c - 55)
      else None)"

definition decode_uXXXX :: "string \<Rightarrow> nat option" where
  "decode_uXXXX s =
     (case s of
        a # b # c # d # r \<Rightarrow>
          (case hex_value a of None \<Rightarrow> None | Some x3 \<Rightarrow>
          (case hex_value b of None \<Rightarrow> None | Some x2 \<Rightarrow>
          (case hex_value c of None \<Rightarrow> None | Some x1 \<Rightarrow>
          (case hex_value d of None \<Rightarrow> None | Some x0 \<Rightarrow>
             Some (4096 * x3 + 256 * x2 + 16 * x1 + x0)))))
      | _ \<Rightarrow> None)"

definition utf8_encode :: "nat \<Rightarrow> string" where
  "utf8_encode n =
     (if n < 128 then [char_of n]
      else if n < 2048 then [char_of (192 + n div 64), char_of (128 + n mod 64)]
      else if n < 65536
        then [char_of (224 + n div 4096), char_of (128 + n div 64 mod 64),
              char_of (128 + n mod 64)]
      else [char_of (240 + n div 262144), char_of (128 + n div 4096 mod 64),
            char_of (128 + n div 64 mod 64), char_of (128 + n mod 64)])"

definition unescape :: "char \<Rightarrow> char option" where
  "unescape e =
     (if e = CHR 0x22 then Some (CHR 0x22)
      else if e = CHR 0x5C then Some (CHR 0x5C)
      else if e = CHR ''/'' then Some (CHR ''/'')
      else if e = CHR ''b'' then Some (CHR 0x08)
      else if e = CHR ''f'' then Some (CHR 0x0C)
      else if e = CHR ''n'' then Some (CHR 0x0A)
      else if e = CHR ''r'' then Some (CHR 0x0D)
      else if e = CHR ''t'' then Some (CHR 0x09)
      else None)"

definition scan_unicode :: "string \<Rightarrow> (string \<times> nat) option" where
  "scan_unicode s =
     (case decode_uXXXX s of
        None \<Rightarrow> None
      | Some uni \<Rightarrow>
          if 55296 \<le> uni \<and> uni \<le> 56319 \<and> take 2 (drop 4 s) = [CHR 0x5C, CHR ''u'']
          then (case decode_uXXXX (drop 6 s) of
                  None \<Rightarrow> None
                | Some uni2 \<Rightarrow>
                    if 56320 \<le> uni2 \<and> uni2 \<le> 57343
                    then Some (utf8_encode (65536 + ((uni - 55296) * 1024 + (uni2 - 56320))),
                               10)
                    else Some (utf8_encode uni, 4))
          else Some (utf8_encode uni, 4))"

definition scan_escape :: "string \<Rightarrow> (string \<times> nat) option" where
  "scan_escape s =
     (case s of
        [] \<Rightarrow> None
      | e # r \<Rightarrow>
          if e = CHR ''u''
          then (case scan_unicode r of None \<Rightarrow> None | Some (d, n) \<Rightarrow> Some (d, Suc n))
          else (case unescape e of None \<Rightarrow> None | Some ch \<Rightarrow> Some ([ch], 1)))"

fun scanstring :: "string \<Rightarrow> (string \<times> string) option" where
  "scanstring [] = None"
| "scanstring (c # cs) =
     (if c = CHR 0x22 then Some ([], cs)
      else if c = CHR 0x5C then
        (case scan_escape cs of
           None \<Rightarrow> None
         | Some (d, n) \<Rightarrow>
             (case scanstring (drop n cs) of
                None \<Rightarrow> None
              | Some (s, r) \<Rightarrow> Some (d @ s, r)))
      else if of_char c < (32::nat) then None
      else (case scanstring cs of None \<Rightarrow> None | Some (s, r) \<Rightarrow> Some (c # s, r)))"

text \<open>
  Numbers (\<^verbatim>\<open>NUMBER_RE\<close>): an optional minus, an integer part without leading zeros, an
  optional fraction and an optional exponent. Without fraction and exponent the literal is
  an \<^verbatim>\<open>int\<close>.
\<close>

definition is_digit :: "char \<Rightarrow> bool" where
  "is_digit c = (CHR ''0'' \<le> c \<and> c \<le> CHR ''9'')"

definition scan_int_part :: "string \<Rightarrow> (string \<times> string) option" where
  "scan_int_part s =
     (case s of
        [] \<Rightarrow> None
      | c # cs \<Rightarrow>
          if c = CHR ''0'' then Some ([c], cs)
          else if is_digit c then Some (c # takeWhile is_digit cs, dropWhile is_digit cs)
          else None)"

definition scan_frac :: "string \<Rightarrow> string \<times> string" where
  "scan_frac s =
     (case s of
        p # d # r \<Rightarrow>
          if p = CHR ''.'' \<and> is_digit d
          then (p # d # takeWhile is_digit r, dropWhile is_digit r) else ([], s)
      | _ \<Rightarrow> ([], s))"

definition scan_exp :: "string \<Rightarrow> string \<times> string" where
  "scan_exp s =
     (case s of
        e # d # r \<Rightarrow>
          if (e = CHR ''e'' \<or> e = CHR ''E'') \<and> is_digit d
          then (e # d # takeWhile is_digit r, dropWhile is_digit r)
          else if (e = CHR ''e'' \<or> e = CHR ''E'') \<and> (d = CHR ''+'' \<or> d = CHR ''-'')
                  \<and> r \<noteq> [] \<and> is_digit (hd r)
          then (e # d # takeWhile is_digit r, dropWhile is_digit r)
          else ([], s)
      | _ \<Rightarrow> ([], s))"

definition match_number :: "string \<Rightarrow> (json \<times> string) option" where
  "match_number s =
     (let neg = (s \<noteq> [] \<and> hd s = CHR ''-'');
          s1 = (if neg then tl s else s)
      in case scan_int_part s1 of
           None \<Rightarrow> None
         | Some (ds, r) \<Rightarrow>
             (let (frac, r1) = scan_frac r; (ex, r2) = scan_exp r1
              in if frac = [] \<and> ex = []
                 then (case digits_value ds 0 of
                         None \<Rightarrow> None
                       | Some n \<Rightarrow> Some (JInt (if neg then - n else n), r2))
                 else Some (JFloat ((if neg then ''-'' else []) @ ds @ frac @ ex), r2)))"

text \<open>Storing a key in a \<^verbatim>\<open>dict\<close>: a key that is there keeps its place.\<close>

fun dict_set :: "string \<Rightarrow> json \<Rightarrow> (string \<times> json) list \<Rightarrow> (string \<times> json) list" where
  "dict_set k v [] = [(k, v)]"
| "dict_set k v (kv # kvs) = (if fst kv = k then (k, v) # kvs else kv # dict_set k v kvs)"

text \<open>
  The scanner: \<open>scan_once\<close> reads one value, \<open>JSONArray\<close> the items of a list after the
  opening bracket and \<open>JSONObject\<close> the members of a dictionary after the opening brace.
  Each returns the value and the text left, or \<open>None\<close> where the module raises
  \<^verbatim>\<open>JSONDecodeError\<close>. The calls are counted down from \<open>fuel\<close>; \<open>json_loads\<close> gives them
  more than a text of that length can use.
\<close>

fun scan_once :: "nat \<Rightarrow> string \<Rightarrow> (json \<times> string) option"
  and JSONArray :: "nat \<Rightarrow> string \<Rightarrow> json list \<Rightarrow> (json \<times> string) option"
  and JSONObject :: "nat \<Rightarrow> string \<Rightarrow> (string \<times> json) list \<Rightarrow> (json \<times> string) option" where
  "scan_once 0 s = None"
| "scan_once (Suc fuel) s =
     (case s of
        [] \<Rightarrow> None
      | c # cs \<Rightarrow>
          if c = CHR 0x22 then
            (case scanstring cs of None \<Rightarrow> None | Some (t, r) \<Rightarrow> Some (JString t, r))
          else if c = CHR ''{'' then
            (if take 1 (skip_ws cs) = ''}'' then Some (JObject [], drop 1 (skip_ws cs))
             else JSONObject fuel (skip_ws cs) [])
          else if c = CHR ''['' then
            (if take 1 (skip_ws cs) = '']'' then Some (JArray [], drop 1 (skip_ws cs))
             else JSONArray fuel (skip_ws cs) [])
          else if take 4 s = ''null'' then Some (JNull, drop 4 s)
          else if take 4 s = ''true'' then Some (JBool True, drop 4 s)
          else if take 5 s = ''false'' then Some (JBool False, drop 5 s)
          else (case match_number s of
                  Some res \<Rightarrow> Some res
                | None \<Rightarrow>
                    if take 3 s = ''NaN'' then Some (JFloat ''NaN'', drop 3 s)
                    else if take 8 s = ''Infinity'' then Some (JFloat ''Infinity'', drop 8 s)
                    else if take 9 s = ''-Infinity'' then Some (JFloat ''-Infinity'', drop 9 s)
                    else None))"
| "JSONArray 0 s values = None"
| "JSONArray (Suc fuel) s values =
     (case scan_once fuel s of
        None \<Rightarrow> None
      | Some (v, r) \<Rightarrow>
          (case skip_ws r of
             [] \<Rightarrow> None
           | c # r' \<Rightarrow>
               if c = CHR '']'' then Some (JArray (values @ [v]), r')
               else if c = CHR '','' then JSONArray fuel (skip_ws r') (values @ [v])
               else None))"
| "JSONObject 0 s pairs = None"
| "JSONObject (Suc fuel) s pairs =
     (case s of
        [] \<Rightarrow> None
      | q # cs \<Rightarrow>
          if q \<noteq> CHR 0x22 then None
          else (case scanstring cs of
                  None \<Rightarrow> None
                | Some (k, r) \<Rightarrow>
                    (case skip_ws r of
                       [] \<Rightarrow> None
                     | c # r1 \<Rightarrow>
                         if c \<noteq> CHR '':'' then None
                         else (case scan_once fuel (skip_ws r1) of
                                 None \<Rightarrow> None
                               | Some (v, r2) \<Rightarrow>
                                   (case skip_ws r2 of
                                      [] \<Rightarrow> None
                                    | d # r3 \<Rightarrow>
                                        if d = CHR ''}''
                                        then Some (JObject (dict_set k v pairs), r3)
                                        else if d = CHR '','' then
                                          JSONObject fuel (skip_ws r3) (dict_set k v pairs)
                                        else None)))))"

definition json_loads :: "string \<Rightarrow> json option" where
  "json_loads s =
     (case scan_once (2 * length s + 2) (skip_ws s) of
        None \<Rightarrow> None
      | Some (j, r) \<Rightarrow> if skip_ws r = [] then Some j else None)"

subsection \<open>Catalogues as JSON values\<close>

text \<open>
  The dictionary that a catalogue record stands for, with the keys in the order in which
  the code builds them (\<^verbatim>\<open>fetch_videos.py\<close>, lines 150 to 158 and 217 to 227;
  \<^verbatim>\<open>utils.py\<close>, lines 52 to 60). \<^verbatim>\<open>recording_date\<close> and \<^verbatim>\<open>last_updated\<close> are \<^verbatim>\<open>None\<close> when
  they have no value; the other optional keys are missing then.
\<close>

definition json_of_optional :: "string option \<Rightarrow> json" where
  "json_of_optional x = (case x of None \<Rightarrow> JNull | Some s \<Rightarrow> JString s)"

definition json_of_video :: "video \<Rightarrow> json" where
  "json_of_video v =
     JObject [(''video_id'', JString (video_id v)),
              (''title'', JString (title v)),
              (''description'', JString (description v)),
              (''upload_date'', JString (upload_date v)),
              (''recording_date'', json_of_optional (recording_date v)),
              (''url'', JString (url v)),
              (''thumbnail'', JString (thumbnail v))]"

definition json_of_channel :: "channel \<Rightarrow> json" where
  "json_of_channel c =
     JObject ([(''channel_id'', JString (channel_id c)),
               (''channel_name'', JString (channel_name c)),
               (''channel_handle'', JString (channel_handle c))]
              @ (case uploads_playlist_id c of
                   None \<Rightarrow> [] | Some u \<Rightarrow> [(''uploads_playlist_id'', JString u)])
              @ (case total_videos c of
                   None \<Rightarrow> [] | Some n \<Rightarrow> [(''total_videos'', JInt (int n))])
              @ [(''last_updated'', json_of_optional (last_updated c))])"

definition json_of_db :: "videos_db \<Rightarrow> json" where
  "json_of_db d =
     JObject ((''channel_info'', json_of_channel (channel_info d))
              # (case videos d of
                   None \<Rightarrow> [] | Some vs \<Rightarrow> [(''videos'', JArray (map json_of_video vs))]))"

text \<open>
  The record that a dictionary read from a file is taken for. A value that is no catalogue
  (a list at the top, a title that is a number) has no record; the code would fail on its
  first use of such a value, and the model answers \<^verbatim>\<open>TypeError\<close> at the load.
\<close>

definition str_at :: "(string \<times> json) list \<Rightarrow> string \<Rightarrow> string option" where
  "str_at m k = (case map_of m k of Some (JString s) \<Rightarrow> Some s | _ \<Rightarrow> None)"

definition optional_at :: "(string \<times> json) list \<Rightarrow> string \<Rightarrow> string option option" where
  "optional_at m k =
     (case map_of m k of
        None \<Rightarrow> Some None
      | Some JNull \<Rightarrow> Some None
      | Some (JString s) \<Rightarrow> Some (Some s)
      | _ \<Rightarrow> None)"

definition count_at :: "(string \<times> json) list \<Rightarrow> string \<Rightarrow> nat option option" where
  "count_at m k =
     (case map_of m k of
        None \<Rightarrow> Some None
      | Some (JInt i) \<Rightarrow> if 0 \<le> i then Some (Some (nat i)) else None
      | _ \<Rightarrow> None)"

definition video_of_json :: "json \<Rightarrow> video option" where
  "video_of_json j =
     (case j of
        JObject m \<Rightarrow>
          (case (str_at m ''video_id'', str_at m ''title'', str_at m ''description'',
                 str_at m ''upload_date'', optional_at m ''recording_date'',
                 str_at m ''url'', str_at m ''thumbnail'') of
             (Some a, Some b, Some c, Some d, Some e, Some f, Some g) \<Rightarrow>
               Some \<lparr>video_id = a, title = b, description = c, upload_date = d,
                     recording_date = e, url = f, thumbnail = g\<rparr>
           | _ \<Rightarrow> None)
      | _ \<Rightarrow> None)"

definition channel_of_json :: "json \<Rightarrow> channel option" where
  "channel_of_json j =
     (case j of
        JObject m \<Rightarrow>
          (case (str_at m ''channel_id'', str_at m ''channel_name'',
                 str_at m ''channel_handle'', optional_at m ''uploads_playlist_id'',
                 count_at m ''total_videos'', optional_at m ''last_updated'') of
             (Some a, Some b, Some c, Some d, Some e, Some f) \<Rightarrow>
               Some \<lparr>channel_id = a, channel_name = b, channel_handle = c,
                     uploads_playlist_id = d, total_videos = e, last_updated = f\<rparr>
           | _ \<Rightarrow> None)
      | _ \<Rightarrow> None)"

definition db_of_json :: "json \<Rightarrow> videos_db option" where
  "db_of_json j =
     (case j of
        JObject m \<Rightarrow>
          (case map_of m ''channel_info'' of
             None \<Rightarrow> None
           | Some cj \<Rightarrow>
               (case channel_of_json cj of
                  None \<Rightarrow> None
                | Some c \<Rightarrow>
                    (case map_of m ''videos'' of
                       None \<Rightarrow> Some \<lparr>channel_info = c, videos = None\<rparr>
                     | Some (JArray xs) \<Rightarrow>
                         (case those (map video_of_json xs) of
                            None \<Rightarrow> None
                          | Some vs \<Rightarrow> Some \<lparr>channel_info = c, videos = Some vs\<rparr>)
                     | _ \<Rightarrow> None)))
      | _ \<Rightarrow> None)"

text \<open>The two calls as the store uses them.\<close>

definition py_json :: "string jsonlib" where
  "py_json =
     \<lparr>json_load = (\<lambda>text. case json_loads text of
                             None \<Rightarrow> Inl JSONDecodeError
                           | Some j \<Rightarrow> (case db_of_json j of
                                          None \<Rightarrow> Inl TypeError
                                        | Some d \<Rightarrow> Inr d)),
      json_dump = (\<lambda>d. write_chunks (iterencode 0 (json_of_db d)))\<rparr>"

definition no_text_files :: "string fs" where
  "no_text_files = (\<lambda>p. None)"

text \<open>A catalogue with a title that holds the lone surrogate \<^verbatim>\<open>U+D800\<close>.\<close>

definition surrogate_db :: videos_db where
  "surrogate_db =
     \<lparr>channel_info = placeholder_channel,
      videos = Some [(mk_video ''a'' None)
                       \<lparr>title := ''bad '' @ [CHR 0xED, CHR 0xA0, CHR 0x80] @ '' title''\<rparr>]\<rparr>"

subsection \<open>Notions for the proof that the decoder reads what the encoder writes\<close>

text \<open>
  Values that hold no \<^verbatim>\<open>float\<close> and whose dictionaries have each key once; text that may
  follow a value in what the encoder writes; and the part of \<open>JSONArray\<close> and of
  \<open>JSONObject\<close> that runs after an item has been read.
\<close>

fun wf_json :: "json \<Rightarrow> bool"
  and wf_list :: "json list \<Rightarrow> bool"
  and wf_pairs :: "(string \<times> json) list \<Rightarrow> bool" where
  "wf_json JNull = True"
| "wf_json (JBool b) = True"
| "wf_json (JInt i) = True"
| "wf_json (JFloat r) = False"
| "wf_json (JString s) = True"
| "wf_json (JArray xs) = wf_list xs"
| "wf_json (JObject kvs) = (distinct (map fst kvs) \<and> wf_pairs kvs)"
| "wf_list [] = True"
| "wf_list (x # xs) = (wf_json x \<and> wf_list xs)"
| "wf_pairs [] = True"
| "wf_pairs (kv # kvs) = (wf_json (snd kv) \<and> wf_pairs kvs)"

definition terminated :: "string \<Rightarrow> bool" where
  "terminated r = (case r of [] \<Rightarrow> True | c # t \<Rightarrow> c = CHR '','' \<or> c = CHR 0x0A)"

definition array_tail :: "nat \<Rightarrow> string \<Rightarrow> json list \<Rightarrow> (json \<times> string) option" where
  "array_tail fuel r values =
     (case skip_ws r of
        [] \<Rightarrow> None
      | c # r' \<Rightarrow>
          if c = CHR '']'' then Some (JArray values, r')
          else if c = CHR '','' then JSONArray fuel (skip_ws r') values
          else None)"

definition object_tail ::
    "nat \<Rightarrow> string \<Rightarrow> (string \<times> json) list \<Rightarrow> (json \<times> string) option" where
  "object_tail fuel r pairs =
     (case skip_ws r of
        [] \<Rightarrow> None
      | d # r3 \<Rightarrow>
          if d = CHR ''}'' then Some (JObject pairs, r3)
          else if d = CHR '','' then JSONObject fuel (skip_ws r3) pairs
          else None)"

section \<open>Properties of the calendar matcher\<close>

lemma scan_video_kept:
  "scan_video f m d v fr =
     (if kept f m d v then fr\<lparr>matching_videos := matching_videos fr @ [v]\<rparr> else fr)"
  by (simp add: scan_video_def kept_def recorded_on_def split: option.splits)

lemma fold_scan_video_matching:
  "matching_videos (fold (scan_video f m d) vs fr) = matching_videos fr @ filter (kept f m d) vs"
  by (induction vs arbitrary: fr) (simp_all add: scan_video_kept)

lemma fold_scan_video_db:
  "arg_videos_db (fold (scan_video f m d) vs fr) = arg_videos_db fr"
  by (induction vs arbitrary: fr) (simp_all add: scan_video_kept)

lemma get_videos_for_date_sort_filter:
  "get_videos_for_date f db m d = sort_key recording_key (filter (kept f m d) (db_videos db))"
  by (simp add: get_videos_for_date_def get_videos_for_date_frame_def Let_def
      fold_scan_video_matching)

lemma kept_is_recorded_on: "f [] = None \<Longrightarrow> kept f m d = recorded_on f m d"
  by (auto simp: kept_def recorded_on_def fun_eq_iff split: option.splits)

lemma kept_recording_date: "kept f m d v \<Longrightarrow> recording_date v = Some (recording_key v)"
  by (auto simp: kept_def recorded_on_def recording_key_def split: option.splits)

lemma kept_recording_date_iff:
  "kept f m d v \<Longrightarrow> (recording_date v = Some s) = (recording_key v = s)"
  by (auto simp: kept_def recorded_on_def recording_key_def split: option.splits)

lemma set_get_videos_for_date:
  "set (get_videos_for_date f db m d) = {v \<in> set (db_videos db). kept f m d v}"
  by (simp add: get_videos_for_date_sort_filter)

lemma returned_is_recorded_on:
  assumes "v \<in> set (get_videos_for_date f db m d)"
  shows "recorded_on f m d v"
  using assms by (simp add: set_get_videos_for_date kept_def)

text \<open>
  Claim C1. If the parser rejects the empty string, as \<^verbatim>\<open>datetime.fromisoformat\<close> does, the
  matcher returns exactly the records of the catalogue, each as often as it occurs there,
  whose stored date is present and valid and has the month and the day of the query.
  Records without a date or with a string that does not parse are left out, and nothing is
  raised: the model is total, the branch of \<^verbatim>\<open>ValueError\<close> being \<open>None\<close>. A query for
  29 February returns no record whose date is 28 February or 1 March.
\<close>

theorem get_videos_for_date_exact:
  assumes "fromisoformat [] = None"
  shows "mset (get_videos_for_date fromisoformat db month day) =
           mset (filter (recorded_on fromisoformat month day) (db_videos db))
       \<and> (\<forall>v \<in> set (get_videos_for_date fromisoformat db 2 29). \<forall>s d.
             recording_date v = Some s \<and> fromisoformat s = Some d \<longrightarrow>
             \<not> (dt_month d = 2 \<and> dt_day d = 28) \<and> \<not> (dt_month d = 3 \<and> dt_day d = 1))"
proof
  show "mset (get_videos_for_date fromisoformat db month day) =
          mset (filter (recorded_on fromisoformat month day) (db_videos db))"
    using assms by (simp add: get_videos_for_date_sort_filter kept_is_recorded_on)
next
  show "\<forall>v \<in> set (get_videos_for_date fromisoformat db 2 29). \<forall>s d.
          recording_date v = Some s \<and> fromisoformat s = Some d \<longrightarrow>
          \<not> (dt_month d = 2 \<and> dt_day d = 28) \<and> \<not> (dt_month d = 3 \<and> dt_day d = 1)"
  proof (intro ballI allI impI)
    fix v s d
    assume v: "v \<in> set (get_videos_for_date fromisoformat db 2 29)"
      and sd: "recording_date v = Some s \<and> fromisoformat s = Some d"
    from v have "recorded_on fromisoformat 2 29 v" by (rule returned_is_recorded_on)
    with sd have "dt_month d = 2 \<and> dt_day d = 29" by (simp add: recorded_on_def)
    then show "\<not> (dt_month d = 2 \<and> dt_day d = 28) \<and> \<not> (dt_month d = 3 \<and> dt_day d = 1)"
      by simp
  qed
qed

lemmas eval_matcher =
  get_videos_for_date_def get_videos_for_date_frame_def sample_db_def db_videos_def
  scan_video_def mk_video_def fromisoformat_date_def digit_of_def days_in_month_def
  is_leap_def recording_key_def recorded_on_def

theorem get_videos_for_date_exact_witness:
  "fromisoformat_date [] = None
   \<and> map video_id (get_videos_for_date fromisoformat_date sample_db 2 29) = [''f'']
   \<and> mset (get_videos_for_date fromisoformat_date sample_db 2 29) =
       mset (filter (recorded_on fromisoformat_date 2 29) (db_videos sample_db))"
proof -
  have h: "fromisoformat_date [] = None" by (simp add: fromisoformat_date_def)
  have "map video_id (get_videos_for_date fromisoformat_date sample_db 2 29) = [''f'']"
    by (simp add: eval_matcher)
  with h get_videos_for_date_exact [of fromisoformat_date sample_db 2 29, OF h] show ?thesis by blast
qed

subsection \<open>Order of the result\<close>

lemma digit_of_range: "digit_of c = Some d \<Longrightarrow> 0 \<le> d \<and> d \<le> 9"
  by (auto simp: digit_of_def less_eq_char_def split: if_splits)

lemma digit_of_less: "digit_of a = Some x \<Longrightarrow> digit_of b = Some y \<Longrightarrow> a < b \<Longrightarrow> x < y"
  by (auto simp: digit_of_def less_char_def split: if_splits)

lemma year_prefix_Some:
  assumes "year_prefix s = Some y"
  obtains a b c d r da db dc dd where "s = a # b # c # d # r"
    "digit_of a = Some da" "digit_of b = Some db" "digit_of c = Some dc" "digit_of d = Some dd"
    "y = 1000 * da + 100 * db + 10 * dc + dd"
proof -
  from assms have len: "4 \<le> length s" and dv: "digits_value (take 4 s) 0 = Some y"
    by (auto simp: year_prefix_def split: if_splits)
  from len obtain a b c d r where s: "s = a # b # c # d # r"
    by (auto simp: Suc_le_length_iff eval_nat_numeral)
  with dv show ?thesis using that by (auto split: option.splits)
qed

text \<open>On strings that begin with four digits, the order of strings is the order of years.\<close>

lemma year_prefix_mono:
  assumes "year_prefix s = Some y" "year_prefix t = Some y'" "s \<le> t"
  shows "y \<le> y'"
proof -
  from assms(1) obtain a b c d r da db dc dd where s: "s = a # b # c # d # r"
    "digit_of a = Some da" "digit_of b = Some db" "digit_of c = Some dc" "digit_of d = Some dd"
    "y = 1000 * da + 100 * db + 10 * dc + dd" by (rule year_prefix_Some)
  from assms(2) obtain a' b' c' d' r' da' db' dc' dd' where t: "t = a' # b' # c' # d' # r'"
    "digit_of a' = Some da'" "digit_of b' = Some db'" "digit_of c' = Some dc'"
    "digit_of d' = Some dd'"
    "y' = 1000 * da' + 100 * db' + 10 * dc' + dd'" by (rule year_prefix_Some)
  note rg = digit_of_range[OF s(2)] digit_of_range[OF s(3)] digit_of_range[OF s(4)]
    digit_of_range[OF s(5)] digit_of_range[OF t(2)] digit_of_range[OF t(3)]
    digit_of_range[OF t(4)] digit_of_range[OF t(5)]
  from assms(3)
  have "a < a' \<or> a = a' \<and> (b < b' \<or> b = b' \<and> (c < c' \<or> c = c' \<and> (d < d' \<or> d = d')))"
    by (auto simp: s t)
  then consider "da < da'" | "da = da'" "db < db'" | "da = da'" "db = db'" "dc < dc'"
     | "da = da'" "db = db'" "dc = dc'" "dd \<le> dd'"
    using s t by (auto dest: digit_of_less)
  then show ?thesis using rg s(6) t(6) by cases linarith+
qed

lemma sorted_years:
  assumes "sorted (map recording_key xs)"
      and "\<forall>v \<in> set xs. year_prefix (recording_key v) = Some (y v)"
  shows "sorted (map y xs)"
  using assms
proof (induction xs)
  case Nil
  then show ?case by simp
next
  case (Cons x xs)
  then show ?case by (auto intro: year_prefix_mono)
qed

lemma kept_year:
  assumes "kept f m d v" "year_leads f v"
  shows "\<exists>y. recording_year f v = Some y \<and> year_prefix (recording_key v) = Some y"
  using assms
  by (auto simp: kept_def recorded_on_def year_leads_def recording_year_def recording_key_def
      split: option.splits)

lemma map_Some_the:
  "\<forall>x \<in> set xs. \<exists>y. g x = Some y \<Longrightarrow> map g xs = map Some (map (\<lambda>x. the (g x)) xs)"
  by (induction xs) auto

lemma recording_dates_ascending:
  "\<exists>ss. map recording_date (get_videos_for_date f db m d) = map Some ss \<and> sorted ss"
proof -
  let ?r = "get_videos_for_date f db m d"
  have "\<forall>v \<in> set ?r. \<exists>s. recording_date v = Some s"
    by (auto simp: set_get_videos_for_date dest: kept_recording_date)
  then have "map recording_date ?r = map Some (map (\<lambda>v. the (recording_date v)) ?r)"
    by (rule map_Some_the)
  moreover have "map (\<lambda>v. the (recording_date v)) ?r = map recording_key ?r"
    by (rule map_cong) (auto simp: set_get_videos_for_date dest: kept_recording_date)
  moreover have "sorted (map recording_key ?r)"
    by (simp add: get_videos_for_date_sort_filter)
  ultimately show ?thesis by metis
qed

lemma equal_dates_in_catalogue_order:
  "filter (\<lambda>v. recording_date v = rd) (get_videos_for_date f db m d) =
   filter (\<lambda>v. recording_date v = rd \<and> v \<in> set (get_videos_for_date f db m d)) (db_videos db)"
proof (cases rd)
  case None
  have n: "\<And>v. v \<in> set (get_videos_for_date f db m d) \<Longrightarrow> recording_date v \<noteq> None"
    by (auto simp: set_get_videos_for_date dest: kept_recording_date)
  have "filter (\<lambda>v. recording_date v = None) (get_videos_for_date f db m d) = []"
    using n by (simp add: filter_empty_conv)
  moreover have "filter (\<lambda>v. recording_date v = None \<and> v \<in> set (get_videos_for_date f db m d))
                   (db_videos db) = []"
    using n by (simp add: filter_empty_conv) blast
  ultimately show ?thesis using None by simp
next
  case (Some s)
  let ?xs = "filter (kept f m d) (db_videos db)"
  have a: "filter (\<lambda>v. recording_date v = Some s) (sort_key recording_key ?xs) =
           filter (\<lambda>v. recording_key v = s) (sort_key recording_key ?xs)"
    by (rule filter_cong) (auto simp: kept_recording_date_iff)
  have b: "filter (\<lambda>v. recording_key v = s) ?xs =
           filter (\<lambda>v. recording_date v = Some s \<and> v \<in> set (sort_key recording_key ?xs))
             (db_videos db)"
    unfolding filter_filter by (rule filter_cong) (auto simp: kept_recording_date_iff)
  show ?thesis unfolding get_videos_for_date_sort_filter Some a sort_key_stable b ..
qed

lemma years_ascending:
  assumes "\<forall>v \<in> set (db_videos db). year_leads f v"
  shows "\<exists>ys. map (recording_year f) (get_videos_for_date f db m d) = map Some ys \<and> sorted ys"
proof -
  let ?r = "get_videos_for_date f db m d"
  let ?y = "\<lambda>v. the (recording_year f v)"
  have each: "\<forall>v \<in> set ?r. \<exists>y. recording_year f v = Some y
                \<and> year_prefix (recording_key v) = Some y"
    using assms by (auto simp: set_get_videos_for_date intro: kept_year)
  then have "map (recording_year f) ?r = map Some (map ?y ?r)"
    by (intro map_Some_the) blast
  moreover have "sorted (map recording_key ?r)"
    by (simp add: get_videos_for_date_sort_filter)
  then have "sorted (map ?y ?r)"
    by (rule sorted_years) (use each in force)
  ultimately show ?thesis by blast
qed

text \<open>The date-only parser reads the year in the first four characters.\<close>

lemma fromisoformat_date_year_leads: "year_leads fromisoformat_date v"
  by (auto simp: year_leads_def fromisoformat_date_def year_prefix_def
      split: option.splits if_splits)

text \<open>
  What the sort does give. The stored dates of the returned records are all present and
  ascending in the order of strings, which is what the code sorts by. The returned records
  with one and the same stored string stand in the order they have in the catalogue. Where
  the parser reads the year of every catalogue record in the first four characters of its
  stored date, as for \<^verbatim>\<open>YYYY-MM-DD\<close>, the years of the returned records are ascending.
\<close>

theorem get_videos_for_date_sorted_stable:
  "(\<exists>ss. map recording_date (get_videos_for_date fromisoformat db month day) = map Some ss
          \<and> sorted ss)
   \<and> (\<forall>rd. filter (\<lambda>v. recording_date v = rd) (get_videos_for_date fromisoformat db month day) =
            filter (\<lambda>v. recording_date v = rd
                        \<and> v \<in> set (get_videos_for_date fromisoformat db month day))
              (db_videos db))
   \<and> ((\<forall>v \<in> set (db_videos db). year_leads fromisoformat v) \<longrightarrow>
        (\<exists>ys. map (recording_year fromisoformat)
                 (get_videos_for_date fromisoformat db month day) = map Some ys
              \<and> sorted ys))"
  using recording_dates_ascending equal_dates_in_catalogue_order years_ascending
  by blast

theorem get_videos_for_date_sorted_stable_witness:
  "list_all (year_leads fromisoformat_date) (db_videos sample_db)
   \<and> map video_id (get_videos_for_date fromisoformat_date sample_db 1 4) = [''d'', ''a'', ''h'']
   \<and> map recording_date (get_videos_for_date fromisoformat_date sample_db 1 4) =
       [Some ''2020-01-04'', Some ''2022-01-04'', Some ''2022-01-04'']
   \<and> (\<exists>ys. map (recording_year fromisoformat_date)
              (get_videos_for_date fromisoformat_date sample_db 1 4) = map Some ys
           \<and> sorted ys)"
proof -
  have h: "\<forall>v \<in> set (db_videos sample_db). year_leads fromisoformat_date v"
    by (simp add: fromisoformat_date_year_leads)
  have "map video_id (get_videos_for_date fromisoformat_date sample_db 1 4) = [''d'', ''a'', ''h'']"
    by (simp add: eval_matcher)
  moreover have "map recording_date (get_videos_for_date fromisoformat_date sample_db 1 4) =
      [Some ''2020-01-04'', Some ''2022-01-04'', Some ''2022-01-04'']"
    by (simp add: eval_matcher)
  ultimately show ?thesis
    using h get_videos_for_date_sorted_stable [of fromisoformat_date sample_db 1 4]
    unfolding list_all_iff by blast
qed

text \<open>
  Claim C2 says that the result is in the order of the recording dates, oldest year first,
  and the comment above the sort says \<^verbatim>\<open>Sort by year (oldest first)\<close>. The code matches on
  the parsed date and sorts the stored strings. On the catalogue \<open>week_db\<close>, queried for
  30 December, both records match; \<^verbatim>\<open>"2020-12-30"\<close> is the smaller string, so the record
  of 2020 is returned before the record of 2019.
\<close>

theorem get_videos_for_date_newest_first:
  "map video_id (get_videos_for_date fromisoformat_weeks week_db 12 30) = [''x'', ''w'']
   \<and> map (recording_year fromisoformat_weeks)
         (get_videos_for_date fromisoformat_weeks week_db 12 30) = [Some 2020, Some 2019]
   \<and> map video_id (db_videos week_db) = [''w'', ''x'']"
  by (simp add: eval_matcher week_db_def fromisoformat_weeks_def recording_year_def)

text \<open>
  Claim C10. The matcher is a query: when it returns, the dictionary it was given is what
  it was before the call, channel information and sequence of videos alike. The statements
  of the function write to the local list only.
\<close>

theorem get_videos_for_date_leaves_catalogue:
  "arg_videos_db (get_videos_for_date_frame fromisoformat db month day) = db
   \<and> channel_info (arg_videos_db (get_videos_for_date_frame fromisoformat db month day)) =
       channel_info db
   \<and> videos (arg_videos_db (get_videos_for_date_frame fromisoformat db month day)) = videos db"
  by (simp add: get_videos_for_date_frame_def Let_def fold_scan_video_db)

theorem get_videos_for_date_leaves_catalogue_witness:
  "arg_videos_db (get_videos_for_date_frame fromisoformat_date sample_db 1 4) = sample_db
   \<and> map video_id (matching_videos (get_videos_for_date_frame fromisoformat_date sample_db 1 4))
       = [''d'', ''a'', ''h'']"
proof -
  have "map video_id (matching_videos (get_videos_for_date_frame fromisoformat_date sample_db 1 4))
       = [''d'', ''a'', ''h'']"
    by (simp add: eval_matcher)
  then show ?thesis
    using get_videos_for_date_leaves_catalogue [of fromisoformat_date sample_db 1 4] by blast
qed

section \<open>Properties of the date extractor\<close>

lemma try_patterns_first_strict:
  "strict_failures_are_ValueError L t ps \<Longrightarrow>
   try_patterns L t ps = Inr (first_strict (strict_of L t) ps)"
proof (induction ps)
  case Nil
  then show ?case by simp
next
  case (Cons p ps)
  show ?case
  proof (cases "strptime L t p")
    case (Inr d)
    then show ?thesis by (simp add: strict_of_def strategy_def)
  next
    case (Inl e)
    with Cons.prems have "is_ValueError e" "strict_failures_are_ValueError L t ps"
      by (simp_all add: strict_failures_are_ValueError_def reached_def strict_of_def
          strategy_def)
    with Inl Cons.IH show ?thesis by (simp add: strict_of_def strategy_def)
  qed
qed

lemma parse_date_from_title_extract:
  assumes "strict_failures_are_ValueError L t (config_title_patterns cfg)"
  shows "parse_date_from_title L t cfg =
           Inr (extract_spec (strict_of L) (fuzzy_of L) t (config_title_patterns cfg) True)"
  using try_patterns_first_strict [OF assms]
  by (simp add: parse_date_from_title_def extract_spec_def fuzzy_of_def strategy_def
      split: option.splits sum.splits)

lemmas eval_extractor =
  parse_date_from_title_def config_of_def config_title_patterns_def sample_lib_def
  sample_strptime_def sample_parse_fuzzy_def extract_spec_def strict_of_def fuzzy_of_def
  strategy_def strict_failures_are_ValueError_def reached_def pi_day_2019_def

text \<open>
  Claim C3, as stated, makes the permissive scan depend on a setting: with fuzzy extraction
  disabled and no strict pattern matching, the result would be absent. The code has no such
  setting. On the title \<^verbatim>\<open>"Road Trip - 03/14/2019"\<close> with the single pattern
  \<^verbatim>\<open>"%m/%d/%Y"\<close>, which does not match the whole title, it returns the date that the
  permissive scan finds, where the extractor of the specification with fuzzy extraction
  disabled returns nothing.
\<close>

theorem parse_date_from_title_fuzzy_not_optional:
  "parse_date_from_title sample_lib ''Road Trip - 03/14/2019'' (config_of [''%m/%d/%Y''] True)
     = Inr (Some pi_day_2019)
   \<and> extract_spec (strict_of sample_lib) (fuzzy_of sample_lib) ''Road Trip - 03/14/2019''
       [''%m/%d/%Y''] False = None"
  by (simp add: eval_extractor)

text \<open>
  Claim C3, amended. Where every strict attempt that the loop reaches either parses or fails
  with \<^verbatim>\<open>ValueError\<close>, the code returns what the extractor of the specification returns with
  fuzzy extraction enabled: the strict patterns are tried in the configured order on the
  whole title, the first that parses decides, the permissive scan is made when none parses
  (nothing in the code disables it), and the result is absent when the scan fails too,
  whatever it fails with.
\<close>

theorem parse_date_from_title_strict_then_fuzzy:
  assumes "strict_failures_are_ValueError L title_str (config_title_patterns cfg)"
  shows "parse_date_from_title L title_str cfg =
           Inr (extract_spec (strict_of L) (fuzzy_of L) title_str
                  (config_title_patterns cfg) True)"
  using assms by (rule parse_date_from_title_extract)

theorem parse_date_from_title_strict_then_fuzzy_witness:
  "strict_failures_are_ValueError sample_lib ''03/14/2019''
     (config_title_patterns (config_of [''%Y-%m-%d'', ''%m/%d/%Y''] True))
   \<and> parse_date_from_title sample_lib ''03/14/2019''
       (config_of [''%Y-%m-%d'', ''%m/%d/%Y''] True) = Inr (Some pi_day_2019)
   \<and> extract_spec (strict_of sample_lib) (fuzzy_of sample_lib) ''03/14/2019''
       (config_title_patterns (config_of [''%Y-%m-%d'', ''%m/%d/%Y''] True)) True
       = Some pi_day_2019"
proof -
  have h: "strict_failures_are_ValueError sample_lib ''03/14/2019''
     (config_title_patterns (config_of [''%Y-%m-%d'', ''%m/%d/%Y''] True))"
    by (simp add: eval_extractor)
  have "extract_spec (strict_of sample_lib) (fuzzy_of sample_lib) ''03/14/2019''
       (config_title_patterns (config_of [''%Y-%m-%d'', ''%m/%d/%Y''] True)) True
       = Some pi_day_2019"
    by (simp add: eval_extractor)
  with h parse_date_from_title_strict_then_fuzzy [OF h] show ?thesis by simp
qed

text \<open>
  Claim C8 says that the extractor never raises. The strict loop catches \<^verbatim>\<open>ValueError\<close>
  only, where the fallback catches everything: a format that names a directive twice (a
  pattern for a range of dates, say) makes \<^verbatim>\<open>strptime\<close> raise \<^verbatim>\<open>re.error\<close>, and the call
  ends with that exception instead of a date or \<^verbatim>\<open>None\<close>.
\<close>

theorem parse_date_from_title_raises:
  "parse_date_from_title sample_lib ''x'' (config_of [''%Y %Y''] True) = Inl ReError"
  by (simp add: eval_extractor)

section \<open>Properties of ingestion\<close>

lemma ingest_item_sentinel:
  "is_sentinel_title (snippet_title sn) \<Longrightarrow> ingest_item L cfg sn = Inr None"
  by (simp add: ingest_item_def is_sentinel_title_def)

lemma ingest_item_dated:
  assumes "\<not> is_sentinel_title (snippet_title sn)"
    and "strict_failures_are_ValueError L (snippet_title sn) (config_title_patterns cfg)"
  shows "ingest_item L cfg sn = Inr (Some (dated_record L cfg sn))"
  using assms(1) parse_date_from_title_extract [OF assms(2)]
  by (simp add: ingest_item_def is_sentinel_title_def dated_record_def
      choose_recording_date_def Let_def)

lemma ingest_items_dated:
  assumes "\<forall>sn \<in> set xs. \<not> is_sentinel_title (snippet_title sn) \<longrightarrow>
             strict_failures_are_ValueError L (snippet_title sn) (config_title_patterns cfg)"
  shows "ingest_items L cfg xs vids =
           (vids @ map (dated_record L cfg)
                     (filter (\<lambda>sn. \<not> is_sentinel_title (snippet_title sn)) xs), None)"
  using assms
proof (induction xs arbitrary: vids)
  case Nil
  then show ?case by simp
next
  case (Cons sn xs)
  show ?case
  proof (cases "is_sentinel_title (snippet_title sn)")
    case True
    with Cons show ?thesis by (simp add: ingest_item_sentinel)
  next
    case False
    with Cons.prems have "ingest_item L cfg sn = Inr (Some (dated_record L cfg sn))"
      by (simp add: ingest_item_dated)
    with False Cons show ?thesis by simp
  qed
qed

lemma fetch_pages_dated:
  assumes "ends_within fuel api tok" "fails_with_HttpError_only fuel api tok"
    "\<forall>sn \<in> set (served fuel api tok). \<not> is_sentinel_title (snippet_title sn) \<longrightarrow>
       strict_failures_are_ValueError L (snippet_title sn) (config_title_patterns cfg)"
  shows "fetch_pages fuel L api cfg tok vids =
     Some (Inr (vids @ map (dated_record L cfg)
        (filter (\<lambda>sn. \<not> is_sentinel_title (snippet_title sn)) (served fuel api tok))))"
  using assms
proof (induction fuel arbitrary: tok vids)
  case 0
  then show ?case by simp
next
  case (Suc fuel)
  show ?case
  proof (cases "api tok")
    case (Inl e)
    with Suc.prems show ?thesis by simp
  next
    case (Inr resp)
    with Suc.prems
    have "\<forall>sn \<in> set (items_of resp). \<not> is_sentinel_title (snippet_title sn) \<longrightarrow>
            strict_failures_are_ValueError L (snippet_title sn) (config_title_patterns cfg)"
      by simp
    then have it: "ingest_items L cfg (items_of resp) vids =
      (vids @ map (dated_record L cfg)
                (filter (\<lambda>sn. \<not> is_sentinel_title (snippet_title sn)) (items_of resp)), None)"
      by (rule ingest_items_dated)
    show ?thesis
    proof (cases "nextPageToken resp")
      case None
      with Inr it show ?thesis by simp
    next
      case (Some t)
      show ?thesis
      proof (cases "t = []")
        case True
        with Inr it Some show ?thesis by simp
      next
        case False
        with Suc.prems Inr Some
        have "ends_within fuel api (Some t)" "fails_with_HttpError_only fuel api (Some t)"
          "\<forall>sn \<in> set (served fuel api (Some t)). \<not> is_sentinel_title (snippet_title sn) \<longrightarrow>
             strict_failures_are_ValueError L (snippet_title sn) (config_title_patterns cfg)"
          by simp_all
        from Suc.IH [OF this] Inr it Some False show ?thesis by simp
      qed
    qed
  qed
qed

lemma dated_record_title: "title (dated_record L cfg sn) = snippet_title sn"
  by (simp add: dated_record_def)

lemmas eval_ingestion =
  fetch_all_videos_from_playlist_def sample_api_def sample_page1_def sample_page2_def
  mk_snippet_def items_of_def ingest_item_def choose_recording_date_def
  config_use_upload_date_fallback_def sample_strftime_def is_sentinel_title_def
  dated_record_def Let_def numeral_2_eq_2

text \<open>
  Claim C9. Take a source that stops naming a next page within the requests counted and
  whose requests fail with \<^verbatim>\<open>HttpError\<close> only, and suppose that on the titles of the
  entries it serves every strict attempt reached parses or fails with \<^verbatim>\<open>ValueError\<close>. Then
  ingestion returns, and what it returns is, in the order served, one record for every
  entry whose title is neither \<^verbatim>\<open>"Private video"\<close> nor \<^verbatim>\<open>"Deleted video"\<close>: its
  \<^verbatim>\<open>recording_date\<close> is the extracted date where extraction succeeds, else the upload date
  where the fallback is enabled (the default), else absent. No record of the result has a
  sentinel title.
\<close>

theorem fetch_all_videos_from_playlist_ingests:
  assumes "ends_within fuel api None"
      and "fails_with_HttpError_only fuel api None"
      and "\<forall>sn \<in> set (served fuel api None). \<not> is_sentinel_title (snippet_title sn) \<longrightarrow>
             strict_failures_are_ValueError L (snippet_title sn) (config_title_patterns cfg)"
  shows "\<exists>out. fetch_all_videos_from_playlist fuel L api cfg = Some (Inr out)
           \<and> out = map (dated_record L cfg)
                     (filter (\<lambda>sn. \<not> is_sentinel_title (snippet_title sn))
                        (served fuel api None))
           \<and> (\<forall>v \<in> set out. title v \<noteq> ''Private video'' \<and> title v \<noteq> ''Deleted video'')"
proof -
  let ?out = "map (dated_record L cfg)
                (filter (\<lambda>sn. \<not> is_sentinel_title (snippet_title sn)) (served fuel api None))"
  have "fetch_all_videos_from_playlist fuel L api cfg = Some (Inr ?out)"
    unfolding fetch_all_videos_from_playlist_def
    using fetch_pages_dated [OF assms, of "[]"] by simp
  moreover have "\<forall>v \<in> set ?out. title v \<noteq> ''Private video'' \<and> title v \<noteq> ''Deleted video''"
    by (auto simp: dated_record_title is_sentinel_title_def)
  ultimately show ?thesis by blast
qed

theorem fetch_all_videos_from_playlist_ingests_witness:
  "ends_within 2 sample_api None
   \<and> fails_with_HttpError_only 2 sample_api None
   \<and> list_all
        (\<lambda>sn. is_sentinel_title (snippet_title sn) \<or>
              strict_failures_are_ValueError sample_lib (snippet_title sn)
                (config_title_patterns (config_of [''%m/%d/%Y''] True)))
        (served 2 sample_api None)
   \<and> fetch_all_videos_from_playlist 2 sample_lib sample_api (config_of [''%m/%d/%Y''] True) =
       Some (Inr [\<lparr>video_id = ''v1'', title = ''Road Trip - 03/14/2019'', description = [],
                   upload_date = ''2019-03-20'', recording_date = Some ''2019-03-14'',
                   url = ''https://www.youtube.com/watch?v=v1'', thumbnail = []\<rparr>,
                  \<lparr>video_id = ''v3'', title = ''Just a fun day!'', description = [],
                   upload_date = ''2020-07-04'', recording_date = Some ''2020-07-04'',
                   url = ''https://www.youtube.com/watch?v=v3'', thumbnail = []\<rparr>])
   \<and> map (dated_record sample_lib (config_of [''%m/%d/%Y''] True))
         (filter (\<lambda>sn. \<not> is_sentinel_title (snippet_title sn)) (served 2 sample_api None)) =
       [\<lparr>video_id = ''v1'', title = ''Road Trip - 03/14/2019'', description = [],
         upload_date = ''2019-03-20'', recording_date = Some ''2019-03-14'',
         url = ''https://www.youtube.com/watch?v=v1'', thumbnail = []\<rparr>,
        \<lparr>video_id = ''v3'', title = ''Just a fun day!'', description = [],
         upload_date = ''2020-07-04'', recording_date = Some ''2020-07-04'',
         url = ''https://www.youtube.com/watch?v=v3'', thumbnail = []\<rparr>]"
proof -
  have h1: "ends_within 2 sample_api None"
    by (simp add: eval_ingestion)
  have h2: "fails_with_HttpError_only 2 sample_api None"
    by (simp add: eval_ingestion)
  have h3: "\<forall>sn \<in> set (served 2 sample_api None). \<not> is_sentinel_title (snippet_title sn) \<longrightarrow>
         strict_failures_are_ValueError sample_lib (snippet_title sn)
           (config_title_patterns (config_of [''%m/%d/%Y''] True))"
    by (simp add: eval_ingestion eval_extractor)
  have v: "fetch_all_videos_from_playlist 2 sample_lib sample_api (config_of [''%m/%d/%Y''] True) =
       Some (Inr [\<lparr>video_id = ''v1'', title = ''Road Trip - 03/14/2019'', description = [],
                   upload_date = ''2019-03-20'', recording_date = Some ''2019-03-14'',
                   url = ''https://www.youtube.com/watch?v=v1'', thumbnail = []\<rparr>,
                  \<lparr>video_id = ''v3'', title = ''Just a fun day!'', description = [],
                   upload_date = ''2020-07-04'', recording_date = Some ''2020-07-04'',
                   url = ''https://www.youtube.com/watch?v=v3'', thumbnail = []\<rparr>])"
    by (simp add: eval_ingestion eval_extractor)
  from fetch_all_videos_from_playlist_ingests [OF h1 h2 h3] v h1 h2 h3
  show ?thesis unfolding list_all_iff by auto
qed

section \<open>The decoder reads what the encoder writes\<close>

subsection \<open>String literals\<close>

lemma hex_value_hex_digit: "k < 16 \<Longrightarrow> hex_value (hex_digit k) = Some k"
  by (auto simp: hex_value_def hex_digit_def less_eq_char_def)

lemma hex_value_zero: "hex_value CHR ''0'' = Some 0"
  by (simp add: hex_value_def less_eq_char_def)

lemma scan_escape_control:
  assumes "of_char c < (32::nat)"
  shows "scan_escape (CHR ''u'' # CHR ''0'' # CHR ''0'' # hex_digit (of_char c div 16)
            # hex_digit (of_char c mod 16) # t) = Some ([c], 5)"
proof -
  let ?n = "of_char c :: nat"
  have a: "hex_value (hex_digit (?n div 16)) = Some (?n div 16)"
    using assms by (intro hex_value_hex_digit) simp
  have b: "hex_value (hex_digit (?n mod 16)) = Some (?n mod 16)"
    by (intro hex_value_hex_digit) simp
  have d: "decode_uXXXX (CHR ''0'' # CHR ''0'' # hex_digit (?n div 16) # hex_digit (?n mod 16) # t)
      = Some ?n"
    by (simp add: decode_uXXXX_def hex_value_zero a b)
  show ?thesis using assms by (simp add: scan_escape_def scan_unicode_def d utf8_encode_def)
qed

lemma scanstring_quote:
  "scanstring (escape_char (CHR 0x22) @ t) =
     (case scanstring t of None \<Rightarrow> None | Some (s, r) \<Rightarrow> Some (CHR 0x22 # s, r))"
  by (simp add: escape_char_def scan_escape_def unescape_def split: option.splits)

lemma scanstring_backslash:
  "scanstring (escape_char (CHR 0x5C) @ t) =
     (case scanstring t of None \<Rightarrow> None | Some (s, r) \<Rightarrow> Some (CHR 0x5C # s, r))"
  by (simp add: escape_char_def scan_escape_def unescape_def split: option.splits)

lemma scanstring_backspace:
  "scanstring (escape_char (CHR 0x08) @ t) =
     (case scanstring t of None \<Rightarrow> None | Some (s, r) \<Rightarrow> Some (CHR 0x08 # s, r))"
  by (simp add: escape_char_def scan_escape_def unescape_def split: option.splits)

lemma scanstring_formfeed:
  "scanstring (escape_char (CHR 0x0C) @ t) =
     (case scanstring t of None \<Rightarrow> None | Some (s, r) \<Rightarrow> Some (CHR 0x0C # s, r))"
  by (simp add: escape_char_def scan_escape_def unescape_def split: option.splits)

lemma scanstring_newline:
  "scanstring (escape_char (CHR 0x0A) @ t) =
     (case scanstring t of None \<Rightarrow> None | Some (s, r) \<Rightarrow> Some (CHR 0x0A # s, r))"
  by (simp add: escape_char_def scan_escape_def unescape_def split: option.splits)

lemma scanstring_return:
  "scanstring (escape_char (CHR 0x0D) @ t) =
     (case scanstring t of None \<Rightarrow> None | Some (s, r) \<Rightarrow> Some (CHR 0x0D # s, r))"
  by (simp add: escape_char_def scan_escape_def unescape_def split: option.splits)

lemma scanstring_tab:
  "scanstring (escape_char (CHR 0x09) @ t) =
     (case scanstring t of None \<Rightarrow> None | Some (s, r) \<Rightarrow> Some (CHR 0x09 # s, r))"
  by (simp add: escape_char_def scan_escape_def unescape_def split: option.splits)

lemma scanstring_control:
  assumes "c \<noteq> CHR 0x22" "c \<noteq> CHR 0x5C" "c \<noteq> CHR 0x08" "c \<noteq> CHR 0x0C" "c \<noteq> CHR 0x0A"
    "c \<noteq> CHR 0x0D" "c \<noteq> CHR 0x09" "of_char c < (32::nat)"
  shows "scanstring (escape_char c @ t) =
     (case scanstring t of None \<Rightarrow> None | Some (s, r) \<Rightarrow> Some (c # s, r))"
proof -
  have "escape_char c = [CHR 0x5C, CHR ''u'', CHR ''0'', CHR ''0'',
          hex_digit (of_char c div 16), hex_digit (of_char c mod 16)]"
    using assms by (simp add: escape_char_def)
  then show ?thesis using assms(8) by (simp add: scan_escape_control split: option.splits)
qed

lemma scanstring_plain:
  assumes "c \<noteq> CHR 0x22" "c \<noteq> CHR 0x5C" "\<not> of_char c < (32::nat)"
  shows "scanstring (escape_char c @ t) =
     (case scanstring t of None \<Rightarrow> None | Some (s, r) \<Rightarrow> Some (c # s, r))"
proof -
  have "escape_char c = [c]" using assms by (auto simp: escape_char_def)
  then show ?thesis using assms by (simp split: option.splits)
qed

lemma scanstring_escape_char:
  "scanstring (escape_char c @ t) =
     (case scanstring t of None \<Rightarrow> None | Some (s, r) \<Rightarrow> Some (c # s, r))"
  using scanstring_quote scanstring_backslash scanstring_backspace scanstring_formfeed
    scanstring_newline scanstring_return scanstring_tab scanstring_control [of c t]
    scanstring_plain [of c t]
  by metis

lemma scanstring_escaped:
  "scanstring (concat (map escape_char s) @ CHR 0x22 # rest) = Some (s, rest)"
  by (induction s) (simp_all add: scanstring_escape_char)

subsection \<open>Integers\<close>

lemma digit_of_char_of: "(k::nat) < 10 \<Longrightarrow> digit_of (char_of (48 + k)) = Some (int k)"
  by (auto simp: digit_of_def less_eq_char_def)

lemma is_digit_char_of: "(k::nat) < 10 \<Longrightarrow> is_digit (char_of (48 + k))"
  by (auto simp: is_digit_def less_eq_char_def)

lemma digits_value_append:
  "digits_value (xs @ ys) acc =
     (case digits_value xs acc of None \<Rightarrow> None | Some a \<Rightarrow> digits_value ys a)"
  by (induction xs arbitrary: acc) (auto split: option.splits)

lemma digits_value_dec: "digits_value (dec n) 0 = Some (int n)"
proof (induction n rule: dec.induct)
  case (1 n)
  show ?case
  proof (cases "n < 10")
    case True
    then show ?thesis by (subst dec.simps) (simp add: digit_of_char_of)
  next
    case False
    with 1 have "digits_value (dec (n div 10)) 0 = Some (int (n div 10))" by simp
    with False show ?thesis
      by (subst dec.simps) (simp add: digits_value_append digit_of_char_of zdiv_int zmod_int)
  qed
qed

lemma dec_digits: "list_all is_digit (dec n)"
proof (induction n rule: dec.induct)
  case (1 n)
  then show ?case by (subst dec.simps) (simp add: is_digit_char_of)
qed

lemma dec_not_Nil: "dec n \<noteq> []"
  by (subst dec.simps) simp

lemma hd_dec: "0 < n \<Longrightarrow> hd (dec n) \<noteq> CHR ''0''"
proof (induction n rule: dec.induct)
  case (1 n)
  show ?case
  proof (cases "n < 10")
    case True
    have "of_char (char_of (48 + n) :: char) \<noteq> (of_char CHR ''0'' :: nat)"
      using True 1(2) by simp
    then have "char_of (48 + n) \<noteq> CHR ''0''" by metis
    with True show ?thesis by (subst dec.simps) simp
  next
    case False
    then have "0 < n div 10" by simp
    with 1 False have "hd (dec (n div 10)) \<noteq> CHR ''0''" by simp
    with False show ?thesis by (subst dec.simps) (simp add: dec_not_Nil)
  qed
qed

lemma char_of_48: "char_of (48::nat) = CHR ''0''"
proof -
  have "of_char (char_of (48::nat)) = (of_char CHR ''0'' :: nat)" by simp
  then show ?thesis by (simp only: of_char_eq_iff)
qed

lemma dec_zero: "dec 0 = ''0''"
  by (subst dec.simps) (simp add: char_of_48)

lemma terminated_not_digit:
  "terminated r \<Longrightarrow> takeWhile is_digit r = [] \<and> dropWhile is_digit r = r"
  by (auto simp: terminated_def is_digit_def less_eq_char_def split: list.splits)

lemma terminated_frac: "terminated r \<Longrightarrow> scan_frac r = ([], r)"
  by (auto simp: terminated_def scan_frac_def split: list.splits)

lemma terminated_exp: "terminated r \<Longrightarrow> scan_exp r = ([], r)"
  by (auto simp: terminated_def scan_exp_def split: list.splits)

lemma scan_int_part_dec:
  assumes "terminated r"
  shows "scan_int_part (dec n @ r) = Some (dec n, r)"
proof (cases "n = 0")
  case True
  then show ?thesis by (simp add: dec_zero scan_int_part_def)
next
  case False
  obtain c t where ct: "dec n = c # t" using dec_not_Nil by (cases "dec n") auto
  with hd_dec [of n] False have c0: "c \<noteq> CHR ''0''" by simp
  from ct dec_digits [of n] have d: "is_digit c" "list_all is_digit t" by simp_all
  from d(2) have "takeWhile is_digit (t @ r) = t" "dropWhile is_digit (t @ r) = r"
    using terminated_not_digit [OF assms] by (simp_all add: list_all_iff)
  with ct c0 d show ?thesis by (simp add: scan_int_part_def)
qed

lemma dec_Cons: "\<exists>c t. dec n = c # t \<and> is_digit c"
  using dec_not_Nil [of n] dec_digits [of n] by (cases "dec n") auto

lemma is_digit_not_minus: "is_digit c \<Longrightarrow> c \<noteq> CHR ''-''"
  by (auto simp: is_digit_def less_eq_char_def)

lemma match_number_dec:
  assumes "terminated r"
  shows "match_number (dec n @ r) = Some (JInt (int n), r)"
proof -
  obtain c t where ct: "dec n = c # t" "is_digit c" using dec_Cons by blast
  then have "hd (dec n @ r) \<noteq> CHR ''-''" by (simp add: is_digit_not_minus)
  then show ?thesis
    by (simp add: match_number_def scan_int_part_dec [OF assms]
        terminated_frac [OF assms] terminated_exp [OF assms] digits_value_dec)
qed

lemma match_number_minus_dec:
  assumes "terminated r"
  shows "match_number (CHR ''-'' # dec n @ r) = Some (JInt (- int n), r)"
  by (simp add: match_number_def scan_int_part_dec [OF assms]
      terminated_frac [OF assms] terminated_exp [OF assms] digits_value_dec)

lemma match_number_int_repr:
  assumes "terminated r"
  shows "match_number (int_repr i @ r) = Some (JInt i, r)"
proof (cases "i < 0")
  case True
  then show ?thesis
    using match_number_minus_dec [OF assms, of "nat (- i)"] by (simp add: int_repr_def)
next
  case False
  then show ?thesis
    using match_number_dec [OF assms, of "nat i"] by (simp add: int_repr_def)
qed

subsection \<open>Values\<close>

lemma concat_glue: "concat (glue buf x chunks) = buf @ concat chunks"
  by (cases x) (simp_all add: glue_def)

lemma skip_ws_Nil: "skip_ws [] = []"
  by (simp add: skip_ws_def)

lemma skip_ws_not_ws: "\<not> is_ws c \<Longrightarrow> skip_ws (c # t) = c # t"
  by (simp add: skip_ws_def)

lemma skip_ws_space: "skip_ws (CHR '' '' # t) = skip_ws t"
  by (simp add: skip_ws_def is_ws_def)

lemma skip_ws_replicate: "skip_ws (replicate n CHR '' '' @ t) = skip_ws t"
  by (induction n) (simp_all add: skip_ws_space)

lemma skip_ws_newline: "skip_ws (CHR 0x0A # t) = skip_ws t"
  by (simp add: skip_ws_def is_ws_def)

lemma skip_ws_newline_indent: "skip_ws (newline_indent lvl @ t) = skip_ws t"
  by (simp add: newline_indent_def skip_ws_newline skip_ws_replicate)

lemma length_newline_indent: "length (newline_indent lvl) = Suc (2 * lvl)"
  by (simp add: newline_indent_def)

lemma not_ws_simps:
  "\<not> is_ws CHR '',''" "\<not> is_ws CHR '']''" "\<not> is_ws CHR ''}''" "\<not> is_ws CHR '':''"
  "\<not> is_ws (CHR 0x22)"
  by (simp_all add: is_ws_def)

lemma is_digit_not_ws: "is_digit c \<Longrightarrow> \<not> is_ws c \<and> c \<noteq> CHR '']''"
  by (auto simp: is_digit_def is_ws_def less_eq_char_def)

lemma int_repr_Cons: "\<exists>c t. int_repr i = c # t \<and> \<not> is_ws c \<and> c \<noteq> CHR '']''"
  using dec_Cons [of "nat i"] is_digit_not_ws
  by (auto simp: int_repr_def is_ws_def)

lemma text_Cons:
  "wf_json j \<Longrightarrow> \<exists>c t. concat (iterencode lvl j) = c # t \<and> \<not> is_ws c \<and> c \<noteq> CHR '']''"
proof (cases j)
  case (JInt i)
  then show ?thesis using int_repr_Cons [of i] by simp
next
  case (JString s)
  then show ?thesis by (simp add: encode_basestring_def is_ws_def)
next
  case (JArray xs)
  then show ?thesis by (cases xs) (simp_all add: is_ws_def concat_glue)
next
  case (JObject kvs)
  then show ?thesis by (cases kvs) (simp_all add: is_ws_def)
qed (simp_all add: is_ws_def)

lemma skip_ws_text:
  assumes "wf_json j"
  shows "skip_ws (concat (iterencode lvl j) @ t) = concat (iterencode lvl j) @ t"
    and "take 1 (concat (iterencode lvl j) @ t) \<noteq> '']''"
  using text_Cons [OF assms, of lvl] by (auto simp: skip_ws_not_ws)

lemma terminated_rest:
  "terminated (concat (iterencode_rest lvl xs) @ newline_indent l0 @ t)"
  by (cases xs) (simp_all add: terminated_def newline_indent_def concat_glue)

lemma terminated_pairs:
  "terminated (concat (iterencode_pairs lvl kvs) @ newline_indent l0 @ t)"
  by (cases kvs) (simp_all add: terminated_def newline_indent_def)

lemma JSONArray_Suc:
  "JSONArray (Suc fuel) s values =
     (case scan_once fuel s of None \<Rightarrow> None
      | Some (v, r) \<Rightarrow> array_tail fuel r (values @ [v]))"
  by (simp add: array_tail_def split: option.splits)

lemma JSONObject_Suc:
  "JSONObject (Suc fuel) (CHR 0x22 # cs) pairs =
     (case scanstring cs of None \<Rightarrow> None
      | Some (k, r) \<Rightarrow>
          (case skip_ws r of [] \<Rightarrow> None
           | c # r1 \<Rightarrow>
               if c \<noteq> CHR '':'' then None
               else (case scan_once fuel (skip_ws r1) of None \<Rightarrow> None
                     | Some (v, r2) \<Rightarrow> object_tail fuel r2 (dict_set k v pairs))))"
  by (simp add: object_tail_def split: option.splits list.splits)

lemma dict_set_fresh: "k \<notin> fst ` set m \<Longrightarrow> dict_set k v m = m @ [(k, v)]"
  by (induction m) auto

lemma scan_once_scalar:
  assumes "terminated rest"
  shows "scan_once (Suc f) (''null'' @ rest) = Some (JNull, rest)"
    and "scan_once (Suc f) (''true'' @ rest) = Some (JBool True, rest)"
    and "scan_once (Suc f) (''false'' @ rest) = Some (JBool False, rest)"
    and "scan_once (Suc f) (encode_basestring s @ rest) = Some (JString s, rest)"
  by (simp_all add: encode_basestring_def scanstring_escaped)

lemma scan_once_int:
  assumes "terminated rest"
  shows "scan_once (Suc f) (int_repr i @ rest) = Some (JInt i, rest)"
proof -
  have "\<exists>c t. int_repr i = c # t \<and> (is_digit c \<or> c = CHR ''-'')"
    using dec_Cons [of "nat i"] by (cases "i < 0") (auto simp: int_repr_def)
  then obtain c t where ct: "int_repr i = c # t" "is_digit c \<or> c = CHR ''-''"
    by blast
  then have ne: "c \<noteq> CHR 0x22" "c \<noteq> CHR ''{''" "c \<noteq> CHR ''[''" "c \<noteq> CHR ''n''"
    "c \<noteq> CHR ''t''" "c \<noteq> CHR ''f''"
    by (auto simp: is_digit_def less_eq_char_def)
  have "scan_once (Suc f) (c # t @ rest) = match_number (c # t @ rest)"
    using ne match_number_int_repr [OF assms, of i] ct by simp
  then show ?thesis using match_number_int_repr [OF assms, of i] ct by simp
qed

text \<open>
  The scanner, given fuel for the length of the text, reads back a value from the text
  that the encoder writes for it, whatever follows. The three statements are proved
  together, along the recursion of the encoder.
\<close>

lemma scan_once_text:
  "wf_json j \<Longrightarrow> terminated rest \<Longrightarrow> length (concat (iterencode lvl j)) \<le> fuel \<Longrightarrow>
     scan_once fuel (concat (iterencode lvl j) @ rest) = Some (j, rest)"
  and array_tail_text:
  "wf_list xs \<Longrightarrow> length (concat (iterencode_rest lvl xs)) \<le> fuel \<Longrightarrow>
     array_tail fuel (concat (iterencode_rest lvl xs) @ newline_indent l0 @ CHR '']'' # rest) acc
       = Some (JArray (acc @ xs), rest)"
  and object_tail_text:
  "wf_pairs kvs \<Longrightarrow> distinct (map fst acc' @ map fst kvs) \<Longrightarrow>
   length (concat (iterencode_pairs lvl kvs)) \<le> fuel \<Longrightarrow>
     object_tail fuel (concat (iterencode_pairs lvl kvs) @ newline_indent l0 @ CHR ''}'' # rest)
       acc' = Some (JObject (acc' @ kvs), rest)"
proof (induction lvl j and lvl xs and lvl kvs
    arbitrary: fuel rest and fuel rest acc l0 and fuel rest acc' l0
    rule: iterencode_iterencode_rest_iterencode_pairs.induct)
  case (1 lvl)
  then obtain f where "fuel = Suc f" by (cases fuel) auto
  with 1 show ?case by (simp add: scan_once_scalar)
next
  case (2 lvl b)
  then obtain f where "fuel = Suc f" by (cases fuel; cases b) auto
  with 2 show ?case by (cases b) (simp_all add: scan_once_scalar)
next
  case (3 lvl i)
  then obtain f where "fuel = Suc f"
    using int_repr_Cons [of i] by (cases fuel) auto
  with 3 show ?case by (simp add: scan_once_int del: scan_once.simps)
next
  case (4 lvl r)
  then show ?case by simp
next
  case (5 lvl s)
  then obtain f where "fuel = Suc f" by (cases fuel) (auto simp: encode_basestring_def)
  with 5 show ?case by (simp add: scan_once_scalar(4) del: scan_once.simps)
next
  case (6 lvl)
  then obtain f where "fuel = Suc f" by (cases fuel) auto
  then show ?case by (simp add: skip_ws_def not_ws_simps)
next
  case (7 lvl x xs)
  let ?tail = "concat (iterencode_rest (Suc lvl) xs) @ newline_indent lvl @ CHR '']'' # rest"
  from "7.prems" have wf: "wf_json x" "wf_list xs" by simp_all
  from "7.prems"(3) obtain f where f: "fuel = Suc (Suc f)"
    and lx: "length (concat (iterencode (Suc lvl) x)) \<le> f"
    and lxs: "length (concat (iterencode_rest (Suc lvl) xs)) \<le> f"
    by (cases fuel; cases "fuel - 1")
      (auto simp: concat_glue length_newline_indent)
  have x: "scan_once f (concat (iterencode (Suc lvl) x) @ ?tail) = Some (x, ?tail)"
    using wf(1) terminated_rest lx by (rule "7.IH"(1))
  have t: "array_tail f ?tail [x] = Some (JArray ([x] @ xs), rest)"
    using wf(2) lxs by (rule "7.IH"(2))
  show ?case
    using skip_ws_text [OF wf(1), of "Suc lvl" ?tail] x t
    by (simp add: f concat_glue skip_ws_newline_indent JSONArray_Suc del: JSONArray.simps)
next
  case (8 lvl)
  then obtain f where "fuel = Suc f" by (cases fuel) auto
  then show ?case by (simp add: skip_ws_def not_ws_simps)
next
  case (9 lvl kv kvs)
  let ?tail = "concat (iterencode_pairs (Suc lvl) kvs) @ newline_indent lvl @ CHR ''}'' # rest"
  from "9.prems" have wf: "wf_json (snd kv)" "wf_pairs kvs"
    and dist: "distinct (map fst [(fst kv, snd kv)] @ map fst kvs)" by simp_all
  from "9.prems"(3) obtain f where f: "fuel = Suc (Suc f)"
    and lv: "length (concat (iterencode (Suc lvl) (snd kv))) \<le> f"
    and lkvs: "length (concat (iterencode_pairs (Suc lvl) kvs)) \<le> f"
    by (cases fuel; cases "fuel - 1")
      (auto simp: length_newline_indent encode_basestring_def)
  have v: "scan_once f (concat (iterencode (Suc lvl) (snd kv)) @ ?tail) = Some (snd kv, ?tail)"
    using wf(1) terminated_pairs lv by (rule "9.IH"(1))
  have t: "object_tail f ?tail [(fst kv, snd kv)]
      = Some (JObject ([(fst kv, snd kv)] @ kvs), rest)"
    using wf(2) dist lkvs by (rule "9.IH"(2))
  show ?case
    using skip_ws_text(1) [OF wf(1), of "Suc lvl" ?tail] v t
    by (simp add: f skip_ws_newline_indent JSONObject_Suc encode_basestring_def
        scanstring_escaped skip_ws_not_ws not_ws_simps skip_ws_space
        del: JSONObject.simps)
next
  case (10 lvl)
  show ?case
    by (simp add: array_tail_def skip_ws_newline_indent skip_ws_not_ws not_ws_simps)
next
  case (11 lvl x xs)
  let ?tail = "concat (iterencode_rest lvl xs) @ newline_indent l0 @ CHR '']'' # rest"
  from "11.prems" have wf: "wf_json x" "wf_list xs" by simp_all
  from "11.prems"(2) obtain f where f: "fuel = Suc f"
    and lx: "length (concat (iterencode lvl x)) \<le> f"
    and lxs: "length (concat (iterencode_rest lvl xs)) \<le> f"
    by (cases fuel) (auto simp: concat_glue length_newline_indent)
  have x: "scan_once f (concat (iterencode lvl x) @ ?tail) = Some (x, ?tail)"
    using wf(1) terminated_rest lx by (rule "11.IH"(1))
  have t: "array_tail f ?tail (acc @ [x]) = Some (JArray ((acc @ [x]) @ xs), rest)"
    using wf(2) lxs by (rule "11.IH"(2))
  show ?case
    using skip_ws_text(1) [OF wf(1), of lvl ?tail] x t
    by (simp add: f concat_glue array_tail_def [of "Suc f"] skip_ws_not_ws not_ws_simps
        skip_ws_newline_indent JSONArray_Suc del: JSONArray.simps)
next
  case (12 lvl)
  show ?case
    by (simp add: object_tail_def skip_ws_newline_indent skip_ws_not_ws not_ws_simps)
next
  case (13 lvl kv kvs)
  let ?tail = "concat (iterencode_pairs lvl kvs) @ newline_indent l0 @ CHR ''}'' # rest"
  from "13.prems" have wf: "wf_json (snd kv)" "wf_pairs kvs"
    and fresh: "fst kv \<notin> fst ` set acc'"
    and dist: "distinct (map fst (acc' @ [(fst kv, snd kv)]) @ map fst kvs)" by auto
  from "13.prems"(3) obtain f where f: "fuel = Suc f"
    and lv: "length (concat (iterencode lvl (snd kv))) \<le> f"
    and lkvs: "length (concat (iterencode_pairs lvl kvs)) \<le> f"
    by (cases fuel) (auto simp: length_newline_indent encode_basestring_def)
  have v: "scan_once f (concat (iterencode lvl (snd kv)) @ ?tail) = Some (snd kv, ?tail)"
    using wf(1) terminated_pairs lv by (rule "13.IH"(1))
  have t: "object_tail f ?tail (acc' @ [(fst kv, snd kv)])
      = Some (JObject ((acc' @ [(fst kv, snd kv)]) @ kvs), rest)"
    using wf(2) dist lkvs by (rule "13.IH"(2))
  show ?case
    using skip_ws_text(1) [OF wf(1), of lvl ?tail] v t
    by (simp add: f object_tail_def [of "Suc f"] skip_ws_not_ws not_ws_simps
        skip_ws_newline_indent JSONObject_Suc encode_basestring_def scanstring_escaped
        skip_ws_space dict_set_fresh [OF fresh] del: JSONObject.simps)
qed

text \<open>Reading the text written for a value gives the value.\<close>

lemma json_loads_text: "wf_json j \<Longrightarrow> json_loads (json_text j) = Some j"
  using scan_once_text [of j "[]" 0 "2 * length (json_text j) + 2"]
    skip_ws_text(1) [of j 0 "[]"]
  by (simp add: json_loads_def json_text_def terminated_def skip_ws_Nil)

subsection \<open>Catalogues\<close>

lemma wf_json_of_video: "wf_json (json_of_video v)"
  by (simp add: json_of_video_def json_of_optional_def split: option.splits)

lemma wf_list_videos: "wf_list (map json_of_video vs)"
  by (induction vs) (simp_all add: wf_json_of_video)

lemma wf_json_of_channel: "wf_json (json_of_channel c)"
  by (simp add: json_of_channel_def json_of_optional_def split: option.splits)

lemma wf_json_of_db: "wf_json (json_of_db d)"
  by (simp add: json_of_db_def wf_json_of_channel wf_list_videos split: option.splits)

lemma video_of_json_of_video: "video_of_json (json_of_video v) = Some v"
  by (simp add: video_of_json_def json_of_video_def str_at_def optional_at_def
      json_of_optional_def split: option.splits)

lemma those_videos: "those (map video_of_json (map json_of_video vs)) = Some vs"
  by (induction vs) (simp_all add: video_of_json_of_video)

lemma channel_of_json_of_channel: "channel_of_json (json_of_channel c) = Some c"
  by (simp add: channel_of_json_def json_of_channel_def str_at_def optional_at_def
      count_at_def json_of_optional_def split: option.splits)

lemma db_of_json_of_db: "db_of_json (json_of_db d) = Some d"
proof (cases "videos d")
  case None
  then show ?thesis
    by (simp add: db_of_json_def json_of_db_def channel_of_json_of_channel)
next
  case (Some vs)
  then show ?thesis
    by (simp add: db_of_json_def json_of_db_def channel_of_json_of_channel those_videos
        del: map_map)
qed

text \<open>The round trip of the serialiser: the load of the text dumped for a catalogue.\<close>

lemma json_load_text: "json_load py_json (json_text (json_of_db d)) = Inr d"
  by (simp add: py_json_def json_loads_text wf_json_of_db db_of_json_of_db)

lemma write_chunks_Written:
  "write_chunks chunks = Written content \<Longrightarrow> content = concat chunks"
  by (simp add: write_chunks_def split: if_splits)

lemma save_videos_db_not_raised:
  assumes "raised (save_videos_db py_json now files data) = None"
  shows "fs_after (save_videos_db py_json now files data) db_path
           = Some (json_text (json_of_db (stamped now data)))"
proof (cases "json_dump py_json (stamped now data)")
  case (Written content)
  then have "content = json_text (json_of_db (stamped now data))"
    by (simp add: py_json_def json_text_def write_chunks_Written)
  with Written show ?thesis
    by (simp add: save_videos_db_def stamped_def Let_def)
next
  case (Broken content e)
  with assms show ?thesis by (simp add: save_videos_db_def stamped_def Let_def)
next
  case (Unopened e)
  with assms show ?thesis by (simp add: save_videos_db_def stamped_def Let_def)
qed

section \<open>Properties of the catalogue store\<close>

lemma backup_path_differs: "backup_path db_path \<noteq> db_path"
  by (simp add: backup_path_def)

lemma save_videos_db_written:
  assumes "json_dump J (stamped now data) = Written content"
  shows "raised (save_videos_db J now files data) = None"
    and "data_after (save_videos_db J now files data) = stamped now data"
    and "fs_after (save_videos_db J now files data) = files(db_path \<mapsto> content)"
  using assms by (simp_all add: save_videos_db_def stamped_def Let_def)

lemma main_backup_and_save_files:
  assumes "json_dump J (stamped now data) = Written content"
  shows "fs_after (main_backup_and_save J now files data) =
     (case files db_path of
        None \<Rightarrow> files(db_path \<mapsto> content)
      | Some old \<Rightarrow> files(backup_path db_path \<mapsto> old, db_path \<mapsto> content))"
  using assms
  by (simp add: main_backup_and_save_def Let_def save_videos_db_written create_backup_def
      split: option.splits)

lemmas eval_store =
  save_videos_db_def load_videos_db_def sample_json_def no_files_def stamped_def Let_def
  main_backup_and_save_def create_backup_def backup_path_def db_path_def

text \<open>
  Claim C4, as stated, holds of every catalogue. A title with a lone surrogate is a
  \<^verbatim>\<open>str\<close> that UTF-8 cannot encode: the save raises when it reaches that title, the file
  is left cut before it, and the load that follows raises too.
\<close>

theorem save_videos_db_unencodable_title:
  "raised (save_videos_db py_json ''t1'' no_text_files surrogate_db)
     = Some (Exception ''Error saving videos database'')
   \<and> load_videos_db py_json
        (fs_after (save_videos_db py_json ''t1'' no_text_files surrogate_db))
     = Inl (Exception ''Error parsing videos database'')"
  by code_simp

text \<open>
  Claim C4, amended. For every catalogue that the save writes without raising, the load
  that follows returns a catalogue with the videos that were saved, element by element; its
  channel information is the saved one with \<^verbatim>\<open>last_updated\<close> set by the save. Both calls go
  through the text in the file: the chunks that \<^verbatim>\<open>json.dump\<close> writes for the dictionary
  and the scanner of \<^verbatim>\<open>json.load\<close>.
\<close>

theorem save_videos_db_then_load_videos_db:
  assumes "raised (save_videos_db py_json now files data) = None"
  shows "\<exists>loaded. load_videos_db py_json
                     (fs_after (save_videos_db py_json now files data)) = Inr loaded
           \<and> videos loaded = videos data
           \<and> channel_info loaded = (channel_info data)\<lparr>last_updated := Some now\<rparr>"
  using save_videos_db_not_raised [OF assms]
  by (simp add: load_videos_db_def json_load_text) (simp add: stamped_def)

theorem save_videos_db_then_load_videos_db_witness:
  "raised (save_videos_db py_json ''2026-01-04T09:00:00'' no_text_files sample_db) = None
   \<and> (\<exists>loaded. load_videos_db py_json
                  (fs_after (save_videos_db py_json ''2026-01-04T09:00:00'' no_text_files
                               sample_db)) = Inr loaded
          \<and> videos loaded = videos sample_db)"
proof -
  have h: "raised (save_videos_db py_json ''2026-01-04T09:00:00'' no_text_files sample_db)
      = None"
    by code_simp
  from save_videos_db_then_load_videos_db [OF h] h show ?thesis by blast
qed

text \<open>
  Claim C5, as stated, has the save make the backup. \<^verbatim>\<open>save_videos_db\<close> makes none: after
  two saves in succession, the second of them over the snapshot that the first one wrote,
  there is no file at the backup path.
\<close>

theorem save_videos_db_makes_no_backup:
  "fs_after (save_videos_db sample_json ''t1'' no_files sample_db) db_path
     = Some (Json (stamped ''t1'' sample_db))
   \<and> fs_after (save_videos_db sample_json ''t2''
                (fs_after (save_videos_db sample_json ''t1'' no_files sample_db)) empty_db)
       (backup_path db_path) = None"
  by (simp add: eval_store)

text \<open>
  Claim C5, amended. The backup is made by the caller: the ingestion run calls
  \<^verbatim>\<open>create_backup\<close> and then \<^verbatim>\<open>save_videos_db\<close>. Whenever it does and a prior snapshot
  exists, the content of the snapshot is at the backup path afterwards, whatever was there
  before, and the new content is in the primary file. After two such runs in succession the
  primary file holds what the second one wrote, the backup file holds what the first one
  wrote, and every other path is as it was.
\<close>

theorem main_backup_and_save_twice:
  assumes "json_dump J (stamped now1 data1) = Written c1"
      and "json_dump J (stamped now2 data2) = Written c2"
  shows "(\<forall>c0. files db_path = Some c0 \<longrightarrow>
            fs_after (main_backup_and_save J now1 files data1) (backup_path db_path) = Some c0
          \<and> fs_after (main_backup_and_save J now1 files data1) db_path = Some c1)
       \<and> fs_after (main_backup_and_save J now2
                     (fs_after (main_backup_and_save J now1 files data1)) data2) db_path
           = Some c2
       \<and> fs_after (main_backup_and_save J now2
                     (fs_after (main_backup_and_save J now1 files data1)) data2)
           (backup_path db_path) = Some c1
       \<and> (\<forall>p. p \<noteq> db_path \<and> p \<noteq> backup_path db_path \<longrightarrow>
            fs_after (main_backup_and_save J now2
                       (fs_after (main_backup_and_save J now1 files data1)) data2) p
              = files p)"
  using backup_path_differs
  by (auto simp add: main_backup_and_save_files [OF assms(1)]
      main_backup_and_save_files [OF assms(2)] split: option.splits)

theorem main_backup_and_save_twice_witness:
  "json_dump sample_json (stamped ''t1'' sample_db) = Written (Json (stamped ''t1'' sample_db))
   \<and> json_dump sample_json (stamped ''t2'' empty_db) = Written (Json (stamped ''t2'' empty_db))
   \<and> (no_files(db_path \<mapsto> Json empty_db, backup_path db_path \<mapsto> Garbage)) db_path
       = Some (Json empty_db)
   \<and> fs_after (main_backup_and_save sample_json ''t1''
                (no_files(db_path \<mapsto> Json empty_db, backup_path db_path \<mapsto> Garbage))
                sample_db) (backup_path db_path) = Some (Json empty_db)
   \<and> fs_after (main_backup_and_save sample_json ''t2''
                (fs_after (main_backup_and_save sample_json ''t1''
                   (no_files(db_path \<mapsto> Json empty_db, backup_path db_path \<mapsto> Garbage))
                   sample_db)) empty_db) (backup_path db_path)
       = Some (Json (stamped ''t1'' sample_db))
   \<and> fs_after (main_backup_and_save sample_json ''t2''
                (fs_after (main_backup_and_save sample_json ''t1''
                   (no_files(db_path \<mapsto> Json empty_db, backup_path db_path \<mapsto> Garbage))
                   sample_db)) empty_db) db_path
       = Some (Json (stamped ''t2'' empty_db))"
proof -
  have h1: "json_dump sample_json (stamped ''t1'' sample_db) =
      Written (Json (stamped ''t1'' sample_db))"
    by (simp add: sample_json_def)
  have h2: "json_dump sample_json (stamped ''t2'' empty_db) =
      Written (Json (stamped ''t2'' empty_db))"
    by (simp add: sample_json_def)
  have h3: "(no_files(db_path \<mapsto> Json empty_db, backup_path db_path \<mapsto> Garbage)) db_path
       = Some (Json empty_db)"
    by (simp add: backup_path_def)
  from main_backup_and_save_twice [OF h1 h2,
      of "no_files(db_path \<mapsto> Json empty_db, backup_path db_path \<mapsto> Garbage)"] h1 h2 h3
  show ?thesis by simp
qed

text \<open>
  Claim C6. Where there is no file at the path of the database, the load returns, without
  raising, the empty catalogue: no videos, and the placeholder channel information of the
  code.
\<close>

theorem load_videos_db_missing_file:
  assumes "files db_path = None"
  shows "load_videos_db J files = Inr empty_db
       \<and> videos empty_db = Some []
       \<and> channel_info empty_db =
           \<lparr>channel_id = [], channel_name = ''Adam The Woo'',
            channel_handle = ''@TheDailyWoo'', uploads_playlist_id = None,
            total_videos = None, last_updated = None\<rparr>"
  using assms by (simp add: load_videos_db_def empty_db_def)

theorem load_videos_db_missing_file_witness:
  "no_files db_path = None
   \<and> load_videos_db sample_json no_files = Inr empty_db
   \<and> videos empty_db = Some []"
proof -
  have h: "no_files db_path = None" by (simp add: no_files_def)
  from load_videos_db_missing_file [where files = no_files and J = sample_json, OF h] h
  show ?thesis by simp
qed

text \<open>
  Claim C7. Where the file exists and reading it as JSON fails, the load raises: a
  \<^verbatim>\<open>JSONDecodeError\<close> becomes the \<^verbatim>\<open>Exception\<close> of the code, any other exception is passed
  on, and in neither case is a catalogue returned. Where there is no file, the load does
  not raise.
\<close>

theorem load_videos_db_corrupt_raises:
  "(files db_path = Some content \<and> json_load J content = Inl e \<longrightarrow>
      load_videos_db J files =
        Inl (if e = JSONDecodeError then Exception ''Error parsing videos database'' else e)
      \<and> (\<forall>data. load_videos_db J files \<noteq> Inr data))
   \<and> (files db_path = None \<longrightarrow> (\<exists>data. load_videos_db J files = Inr data))"
  by (simp add: load_videos_db_def)

theorem load_videos_db_corrupt_raises_witness:
  "(no_files(db_path \<mapsto> Garbage)) db_path = Some Garbage
   \<and> json_load sample_json Garbage = Inl JSONDecodeError
   \<and> load_videos_db sample_json (no_files(db_path \<mapsto> Garbage)) =
       Inl (Exception ''Error parsing videos database'')
   \<and> no_files db_path = None
   \<and> (\<exists>data. load_videos_db sample_json no_files = Inr data)"
proof -
  have h1: "(no_files(db_path \<mapsto> Garbage)) db_path = Some Garbage" by simp
  have h2: "json_load sample_json Garbage = Inl JSONDecodeError" by (simp add: sample_json_def)
  have h3: "no_files db_path = None" by (simp add: no_files_def)
  from load_videos_db_corrupt_raises [of "no_files(db_path \<mapsto> Garbage)" Garbage sample_json
         JSONDecodeError]
       load_videos_db_corrupt_raises [of no_files Garbage sample_json JSONDecodeError]
       h1 h2 h3
  show ?thesis by simp
qed

end
